theory Spec2Isabelle
  imports Main "HOL-Library.Word"
begin

unbundle bit_operations_syntax

section \<open>DMR voice relay server: data model (dmr\_server.h)\<close>

type_synonym u8 = "8 word"
type_synonym u16 = "16 word"
type_synonym u32 = "32 word"
type_synonym u64 = "64 word"

text \<open>
  \<^verbatim>\<open>time_t\<close> is a 64-bit signed integer and \<^verbatim>\<open>int\<close> a 32-bit one: a word, read with
  \<open>sint\<close>. The difference of two \<^verbatim>\<open>time_t\<close> values is the difference of the words, which
  wraps around as the machine's subtraction does (C leaves the overflow undefined).
\<close>

type_synonym time_t = "64 word"
type_synonym c_int = "32 word"

text \<open>The constants of \<^verbatim>\<open>dmr_server.h\<close>.\<close>

definition DMR_PAYLOAD_SIZE :: nat where "DMR_PAYLOAD_SIZE = 27"
definition DMR_HEADER_SIZE :: nat where "DMR_HEADER_SIZE = 6"
definition DMR_MAX_CLIENTS :: nat where "DMR_MAX_CLIENTS = 100"
definition DMR_BUFFER_SIZE :: nat where "DMR_BUFFER_SIZE = 1024"

text \<open>
  \<^verbatim>\<open>struct sockaddr_in\<close>: the code compares two addresses by \<^verbatim>\<open>sin_addr.s_addr\<close> and
  \<^verbatim>\<open>sin_port\<close> only, and copies the whole structure with \<^verbatim>\<open>memcpy\<close>.
\<close>

record sockaddr_in =
  sin_family :: u16
  sin_port :: u16
  sin_addr :: u32

text \<open>
  \<^verbatim>\<open>dmr_client_t\<close>. \<^verbatim>\<open>callsign\<close> is the C string held in the 10-byte array, without
  its terminating NUL.
\<close>

record dmr_client_t =
  addr :: sockaddr_in
  last_seen :: time_t
  dmr_id :: u32
  active :: bool
  callsign :: string

text \<open>\<^verbatim>\<open>dmr_frame_t\<close>; the field \<^verbatim>\<open>type\<close> is called \<open>ftype\<close> here.\<close>

record dmr_frame_t =
  ftype :: u8
  slot :: u8
  src_id :: u32
  dst_id :: u32
  payload :: "u8 list"

text \<open>
  \<^verbatim>\<open>dmr_config_t\<close>, with the one field of \<^verbatim>\<open>dmr_db_config_t\<close> the server reads
  (\<^verbatim>\<open>db.enabled\<close>). The bind address and the database credentials only reach the socket
  and the database library.
\<close>

record dmr_config_t =
  port :: u16
  verbose :: bool
  timeout :: c_int
  db_enabled :: bool

text \<open>
  The global variables of \<^verbatim>\<open>dmr_server.c\<close>, and what the server hands to the outside:
  \<open>sent\<close> records every \<^verbatim>\<open>sendto\<close> call (target address and bytes), \<open>db_events\<close> every
  call of \<^verbatim>\<open>dmr_db_log_client\<close> (event name and a copy of the client), \<open>db_frames\<close> every
  call of \<^verbatim>\<open>dmr_db_log_frame\<close>, \<open>db_lookups\<close> every call of \<^verbatim>\<open>dmr_db_get_callsign\<close>.
  Console output is not modelled.
\<close>

record server_state =
  clients :: "dmr_client_t list"
  client_count :: int
  server_config :: dmr_config_t
  packets_received :: u64
  packets_relayed :: u64
  bytes_received :: u64
  bytes_sent :: u64
  sent :: "(sockaddr_in \<times> u8 list) list"
  db_events :: "(string \<times> dmr_client_t) list"
  db_frames :: "(dmr_frame_t \<times> sockaddr_in) list"
  db_lookups :: "u32 list"

text \<open>
  The outside world: what the directory query of \<^verbatim>\<open>dmr_db_get_callsign\<close> finds for an
  identifier (\<open>None\<close> when it returns -1), and what \<^verbatim>\<open>sendto\<close> returns.
\<close>

record world =
  db_get_callsign :: "u32 \<Rightarrow> string option"
  sendto :: "sockaddr_in \<Rightarrow> u8 list \<Rightarrow> int"

section \<open>The operations of dmr\_server.c\<close>

text \<open>The test of the lookup loops: an active client with the same IP address and port.\<close>

definition same_endpoint :: "sockaddr_in \<Rightarrow> sockaddr_in \<Rightarrow> bool" where
  "same_endpoint a b = (sin_addr a = sin_addr b \<and> sin_port a = sin_port b)"

definition client_matches :: "sockaddr_in \<Rightarrow> dmr_client_t \<Rightarrow> bool" where
  "client_matches a c = (active c \<and> same_endpoint (addr c) a)"

text \<open>
  A loop \<^verbatim>\<open>for (i = 0; i < DMR_MAX_CLIENTS; i++) if (P(clients[i])) { ...; return/break; }\<close>
  acts on the first index whose client satisfies the test, if there is one.
\<close>

definition first_slot :: "(dmr_client_t \<Rightarrow> bool) \<Rightarrow> dmr_client_t list \<Rightarrow> nat option" where
  "first_slot P cs = List.find (\<lambda>i. P (cs ! i)) [0..<DMR_MAX_CLIENTS]"

text \<open>
  \<^verbatim>\<open>dmr_server_init\<close>, as far as the registry goes: the statics are zero, every entry is
  marked inactive, the configuration is copied.
\<close>

definition zero_addr :: sockaddr_in where
  "zero_addr = \<lparr>sin_family = 0, sin_port = 0, sin_addr = 0\<rparr>"

definition zero_client :: dmr_client_t where
  "zero_client = \<lparr>addr = zero_addr, last_seen = 0, dmr_id = 0, active = False, callsign = []\<rparr>"

definition dmr_server_init :: "dmr_config_t \<Rightarrow> server_state" where
  "dmr_server_init config =
     \<lparr>clients = replicate DMR_MAX_CLIENTS zero_client, client_count = 0,
      server_config = config, packets_received = 0, packets_relayed = 0,
      bytes_received = 0, bytes_sent = 0, sent = [], db_events = [], db_frames = [],
      db_lookups = []\<rparr>"

text \<open>\<^verbatim>\<open>strncpy(dst, src, sizeof(dst) - 1); dst[sizeof(dst) - 1] = '\0'\<close> on a 10-byte array.\<close>

definition strncpy9 :: "string \<Rightarrow> string" where
  "strncpy9 src = take 9 src"

text \<open>
  \<^verbatim>\<open>if (server_config.db.enabled) dmr_db_log_client(&clients[i], event)\<close>: the client is
  logged as it is at that moment.
\<close>

definition log_client :: "nat \<Rightarrow> string \<Rightarrow> server_state \<Rightarrow> server_state" where
  "log_client i event s =
     (if db_enabled (server_config s)
      then s\<lparr>db_events := db_events s @ [(event, clients s ! i)]\<rparr>
      else s)"

text \<open>
  \<^verbatim>\<open>dmr_add_client\<close>: the first inactive slot takes the client; -1 when there is none.
  \<open>now\<close> is the value of \<^verbatim>\<open>time(NULL)\<close>.
\<close>

definition dmr_add_client ::
  "time_t \<Rightarrow> sockaddr_in \<Rightarrow> u32 \<Rightarrow> string option \<Rightarrow> server_state \<Rightarrow> int \<times> server_state" where
  "dmr_add_client now a ident cs s =
     (case first_slot (\<lambda>c. \<not> active c) (clients s) of
        Some i \<Rightarrow>
          let c = \<lparr>addr = a, last_seen = now, dmr_id = ident, active = True,
                   callsign = (case cs of Some n \<Rightarrow> strncpy9 n | None \<Rightarrow> [])\<rparr>;
              s1 = s\<lparr>clients := (clients s)[i := c], client_count := client_count s + 1\<rparr>
          in (0, log_client i ''connect'' s1)
      | None \<Rightarrow> (-1, s))"

text \<open>
  \<^verbatim>\<open>dmr_remove_client\<close>: the first active client with this endpoint is logged twice (as
  "disconnect" and as "timeout") and marked inactive; -1 when there is none.
\<close>

definition dmr_remove_client :: "sockaddr_in \<Rightarrow> server_state \<Rightarrow> int \<times> server_state" where
  "dmr_remove_client a s =
     (case first_slot (client_matches a) (clients s) of
        Some i \<Rightarrow>
          let s1 = log_client i ''disconnect'' s;
              s2 = log_client i ''timeout'' s1
          in (0, s2\<lparr>clients := (clients s2)[i := (clients s2 ! i)\<lparr>active := False\<rparr>],
                    client_count := client_count s2 - 1\<rparr>)
      | None \<Rightarrow> (-1, s))"

text \<open>
  \<^verbatim>\<open>dmr_cleanup_clients\<close>: one pass over all slots, with one reading \<open>now\<close> of the clock.
  The test \<^verbatim>\<open>now - clients[i].last_seen > server_config.timeout\<close> subtracts two \<^verbatim>\<open>time_t\<close>
  values and compares the signed result with the timeout, converted to \<^verbatim>\<open>time_t\<close>.
\<close>

definition cleanup_slot :: "time_t \<Rightarrow> nat \<Rightarrow> server_state \<Rightarrow> server_state" where
  "cleanup_slot now i s =
     (if active (clients s ! i)
         \<and> sint (now - last_seen (clients s ! i)) > sint (timeout (server_config s))
      then let s1 = log_client i ''timeout'' s
           in s1\<lparr>clients := (clients s1)[i := (clients s1 ! i)\<lparr>active := False\<rparr>],
                 client_count := client_count s1 - 1\<rparr>
      else s)"

definition dmr_cleanup_clients :: "time_t \<Rightarrow> server_state \<Rightarrow> server_state" where
  "dmr_cleanup_clients now s = fold (cleanup_slot now) [0..<DMR_MAX_CLIENTS] s"

text \<open>
  \<^verbatim>\<open>dmr_process_frame\<close> (it always returns 0): touch the first active client with this
  endpoint, giving it the frame's source identifier if it has none, or else add a client.
\<close>

definition touch_client :: "world \<Rightarrow> time_t \<Rightarrow> dmr_frame_t \<Rightarrow> nat \<Rightarrow> server_state \<Rightarrow> server_state" where
  "touch_client w now fr i s =
     (let s1 = s\<lparr>clients := (clients s)[i := (clients s ! i)\<lparr>last_seen := now\<rparr>]\<rparr>
      in if dmr_id (clients s1 ! i) = 0 \<and> src_id fr \<noteq> 0
         then let s2 = s1\<lparr>clients := (clients s1)[i := (clients s1 ! i)\<lparr>dmr_id := src_id fr\<rparr>]\<rparr>
              in if db_enabled (server_config s2)
                 then let s3 = s2\<lparr>db_lookups := db_lookups s2 @ [src_id fr]\<rparr>
                      in (case db_get_callsign w (src_id fr) of
                            Some n \<Rightarrow> s3\<lparr>clients := (clients s3)
                                         [i := (clients s3 ! i)\<lparr>callsign := strncpy9 n\<rparr>]\<rparr>
                          | None \<Rightarrow> s3)
                 else s2
         else s1)"

definition dmr_process_frame ::
  "world \<Rightarrow> time_t \<Rightarrow> dmr_frame_t \<Rightarrow> sockaddr_in \<Rightarrow> server_state \<Rightarrow> server_state" where
  "dmr_process_frame w now fr client_addr s =
     (let s1 = (case first_slot (client_matches client_addr) (clients s) of
                  Some i \<Rightarrow> touch_client w now fr i s
                | None \<Rightarrow> snd (dmr_add_client now client_addr (src_id fr) None s))
      in if db_enabled (server_config s1)
         then s1\<lparr>db_frames := db_frames s1 @ [(fr, client_addr)]\<rparr>
         else s1)"

text \<open>
  \<^verbatim>\<open>dmr_relay_frame\<close> (it always returns 0). The bytes sent: the eight header bytes are
  written at offsets 0 to 7, then \<^verbatim>\<open>memcpy(buffer + DMR_HEADER_SIZE, frame->payload,
  DMR_PAYLOAD_SIZE)\<close> writes the payload from offset 6 on, and the first
  \<^verbatim>\<open>DMR_HEADER_SIZE + DMR_PAYLOAD_SIZE\<close> bytes are sent. \<open>memcpy_at\<close> is a \<^verbatim>\<open>memcpy\<close> into a
  buffer, at an offset.
\<close>

definition memcpy_at :: "u8 list \<Rightarrow> nat \<Rightarrow> u8 list \<Rightarrow> u8 list" where
  "memcpy_at buf off src = take off buf @ src @ drop (off + length src) buf"

definition frame_header :: "dmr_frame_t \<Rightarrow> u8 list" where
  "frame_header fr =
     [ftype fr, slot fr,
      ucast (drop_bit 16 (src_id fr) AND 0xFF), ucast (drop_bit 8 (src_id fr) AND 0xFF),
      ucast (src_id fr AND 0xFF),
      ucast (drop_bit 16 (dst_id fr) AND 0xFF), ucast (drop_bit 8 (dst_id fr) AND 0xFF),
      ucast (dst_id fr AND 0xFF)]"

definition relay_buffer :: "dmr_frame_t \<Rightarrow> u8 list" where
  "relay_buffer fr =
     take (DMR_HEADER_SIZE + DMR_PAYLOAD_SIZE)
       (memcpy_at (frame_header fr) DMR_HEADER_SIZE (take DMR_PAYLOAD_SIZE (payload fr)))"

text \<open>
  One round of the sending loop, for slot \<open>i\<close>. \<open>exclude_addr\<close> is \<open>None\<close> for a NULL
  pointer. A failed \<^verbatim>\<open>sendto\<close> (a negative result) is reported and the loop goes on.
\<close>

definition relay_slot ::
  "world \<Rightarrow> u8 list \<Rightarrow> sockaddr_in option \<Rightarrow> nat \<Rightarrow> server_state \<Rightarrow> server_state" where
  "relay_slot w buf exclude_addr i s =
     (if active (clients s ! i)
      then if (case exclude_addr of
                 Some e \<Rightarrow> same_endpoint (addr (clients s ! i)) e
               | None \<Rightarrow> False)
           then s
           else let r = sendto w (addr (clients s ! i)) buf;
                    s1 = s\<lparr>sent := sent s @ [(addr (clients s ! i), buf)]\<rparr>
                in if r < 0 then s1
                   else s1\<lparr>bytes_sent := bytes_sent s1 + word_of_int r,
                           packets_relayed := packets_relayed s1 + 1\<rparr>
      else s)"

definition dmr_relay_frame ::
  "world \<Rightarrow> dmr_frame_t \<Rightarrow> sockaddr_in option \<Rightarrow> server_state \<Rightarrow> server_state" where
  "dmr_relay_frame w fr exclude_addr s =
     fold (relay_slot w (relay_buffer fr) exclude_addr) [0..<DMR_MAX_CLIENTS] s"

text \<open>
  One iteration of the loop of \<^verbatim>\<open>dmr_server_run\<close>. Its local variables live across
  iterations: the receive buffer, the frame, and the static \<^verbatim>\<open>last_cleanup\<close>. The buffer and
  the frame are not initialised by the code, so their first values are whatever the stack held.
\<close>

record run_state =
  srv :: server_state
  buffer :: "u8 list"
  frame :: dmr_frame_t
  last_cleanup :: time_t

text \<open>
  \<^verbatim>\<open>recvfrom\<close> either fails or stores a datagram, cut to the size of the buffer, at the
  start of the buffer and yields the number of bytes stored and the sender's address.
\<close>

datatype recv_result = Recv_Error | Recv_Data "u8 list" sockaddr_in

definition recv_into :: "u8 list \<Rightarrow> u8 list \<Rightarrow> u8 list" where
  "recv_into buf d = memcpy_at buf 0 (take DMR_BUFFER_SIZE d)"

text \<open>
  The parsing of lines 139 to 149: the header fields are read from \<^verbatim>\<open>buffer[0]\<close> to
  \<^verbatim>\<open>buffer[7]\<close>, and \<^verbatim>\<open>payload_size = min(bytes_read - DMR_HEADER_SIZE, DMR_PAYLOAD_SIZE)\<close>
  bytes are copied from offset 6 into the payload.
\<close>

definition be24 :: "u8 \<Rightarrow> u8 \<Rightarrow> u8 \<Rightarrow> u32" where
  "be24 b2 b1 b0 = push_bit 16 (ucast b2) OR push_bit 8 (ucast b1) OR ucast b0"

definition parse_frame :: "u8 list \<Rightarrow> nat \<Rightarrow> dmr_frame_t \<Rightarrow> dmr_frame_t" where
  "parse_frame buf bytes_read fr =
     (let payload_size = min (bytes_read - DMR_HEADER_SIZE) DMR_PAYLOAD_SIZE
      in fr\<lparr>ftype := buf ! 0, slot := buf ! 1,
            src_id := be24 (buf ! 2) (buf ! 3) (buf ! 4),
            dst_id := be24 (buf ! 5) (buf ! 6) (buf ! 7),
            payload := memcpy_at (payload fr) 0 (take payload_size (drop DMR_HEADER_SIZE buf))\<rparr>)"

text \<open>
  Lines 113 to 156: receive, count, and for at least \<^verbatim>\<open>DMR_HEADER_SIZE\<close> bytes parse,
  process and relay. \<open>t_frame\<close> is the clock as \<^verbatim>\<open>dmr_process_frame\<close> reads it.
\<close>

definition run_receive :: "world \<Rightarrow> time_t \<Rightarrow> u8 list \<Rightarrow> sockaddr_in \<Rightarrow> run_state \<Rightarrow> run_state" where
  "run_receive w t_frame d client_addr r =
     (let bytes_read = min (length d) DMR_BUFFER_SIZE;
          r1 = r\<lparr>buffer := recv_into (buffer r) d,
                 srv := (srv r)\<lparr>packets_received := packets_received (srv r) + 1,
                                bytes_received := bytes_received (srv r) + of_nat bytes_read\<rparr>\<rparr>
      in if bytes_read \<ge> DMR_HEADER_SIZE
         then let fr = parse_frame (buffer r1) bytes_read (frame r1);
                  s1 = dmr_process_frame w t_frame fr client_addr (srv r1);
                  s2 = dmr_relay_frame w fr (Some client_addr) s1
              in r1\<lparr>frame := fr, srv := s2\<rparr>
         else r1)"

text \<open>
  Lines 158 to 169: the cleanup, when more than 60 seconds have passed since the last one.
  \<open>t_loop\<close> is the clock as the loop reads it, \<open>t_clean\<close> as \<^verbatim>\<open>dmr_cleanup_clients\<close> does.
\<close>

definition run_periodic :: "time_t \<Rightarrow> time_t \<Rightarrow> run_state \<Rightarrow> run_state" where
  "run_periodic t_loop t_clean r =
     (if sint (t_loop - last_cleanup r) > 60
      then r\<lparr>srv := dmr_cleanup_clients t_clean (srv r), last_cleanup := t_loop\<rparr>
      else r)"

definition dmr_server_run_iter ::
  "world \<Rightarrow> time_t \<Rightarrow> time_t \<Rightarrow> time_t \<Rightarrow> recv_result \<Rightarrow> run_state \<Rightarrow> run_state" where
  "dmr_server_run_iter w t_frame t_loop t_clean rx r =
     (case rx of
        Recv_Error \<Rightarrow> r
      | Recv_Data d client_addr \<Rightarrow>
          run_periodic t_loop t_clean (run_receive w t_frame d client_addr r))"

section \<open>Properties of the registry\<close>

text \<open>The client array has \<^verbatim>\<open>DMR_MAX_CLIENTS\<close> entries.\<close>

definition wf_state :: "server_state \<Rightarrow> bool" where
  "wf_state s = (length (clients s) = DMR_MAX_CLIENTS)"

text \<open>The number of active sessions, as a scan of the array counts them.\<close>

definition count_active :: "dmr_client_t list \<Rightarrow> nat" where
  "count_active cs = length (filter active cs)"

text \<open>An endpoint is the pair of IP address and UDP port.\<close>

definition endpoint :: "sockaddr_in \<Rightarrow> u32 \<times> u16" where
  "endpoint a = (sin_addr a, sin_port a)"

definition unique_endpoints :: "dmr_client_t list \<Rightarrow> bool" where
  "unique_endpoints cs = distinct (map (\<lambda>c. endpoint (addr c)) (filter active cs))"

text \<open>An endpoint is registered when the lookup loop finds an active client for it.\<close>

definition registered :: "sockaddr_in \<Rightarrow> server_state \<Rightarrow> bool" where
  "registered a s = (first_slot (client_matches a) (clients s) \<noteq> None)"

text \<open>The test of the cleanup loop, and what the loop does to one client.\<close>

definition expired :: "time_t \<Rightarrow> c_int \<Rightarrow> dmr_client_t \<Rightarrow> bool" where
  "expired now tmo c = (active c \<and> sint (now - last_seen c) > sint tmo)"

definition expire :: "time_t \<Rightarrow> c_int \<Rightarrow> dmr_client_t \<Rightarrow> dmr_client_t" where
  "expire now tmo c = (if expired now tmo c then c\<lparr>active := False\<rparr> else c)"

text \<open>
  The counter agrees with the array: the array has its size and \<^verbatim>\<open>client_count\<close> is the
  number of active entries.
\<close>

definition counter_inv :: "server_state \<Rightarrow> bool" where
  "counter_inv s = (wf_state s \<and> client_count s = int (count_active (clients s)))"

text \<open>
  The invariant of the registry: the array has its size, the counter is the number of active
  entries, and no two active entries have the same endpoint.
\<close>

definition registry_inv :: "server_state \<Rightarrow> bool" where
  "registry_inv s =
     (wf_state s \<and> client_count s = int (count_active (clients s))
      \<and> unique_endpoints (clients s))"

text \<open>
  The states the server can be in. \<^verbatim>\<open>dmr_add_client\<close> has one caller,
  \<^verbatim>\<open>dmr_process_frame\<close>, which calls it when its lookup loop has found no active client
  for the endpoint; the rule \<open>add\<close> is the call under that condition.
\<close>

inductive reachable :: "dmr_config_t \<Rightarrow> server_state \<Rightarrow> bool" for config where
  init: "reachable config (dmr_server_init config)"
| frame: "reachable config s \<Longrightarrow> reachable config (dmr_process_frame w now fr a s)"
| relay: "reachable config s \<Longrightarrow> reachable config (dmr_relay_frame w fr ex s)"
| add: "reachable config s \<Longrightarrow> \<not> registered a s \<Longrightarrow>
        reachable config (snd (dmr_add_client now a ident cs s))"
| remove: "reachable config s \<Longrightarrow> reachable config (snd (dmr_remove_client a s))"
| cleanup: "reachable config s \<Longrightarrow> reachable config (dmr_cleanup_clients now s)"

text \<open>
  Sequences of calls of the four registry functions, with any arguments, applied from the
  left.
\<close>

datatype registry_op =
  Add time_t sockaddr_in u32 "string option"
| Remove sockaddr_in
| Cleanup time_t
| Process world time_t dmr_frame_t sockaddr_in

fun apply_op :: "registry_op \<Rightarrow> server_state \<Rightarrow> server_state" where
  "apply_op (Add now a ident cs) s = snd (dmr_add_client now a ident cs s)"
| "apply_op (Remove a) s = snd (dmr_remove_client a s)"
| "apply_op (Cleanup now) s = dmr_cleanup_clients now s"
| "apply_op (Process w now fr a) s = dmr_process_frame w now fr a s"

definition run_ops :: "registry_op list \<Rightarrow> server_state \<Rightarrow> server_state" where
  "run_ops ops s = fold apply_op ops s"

text \<open>What the found branch does to the client it touches.\<close>

definition touched :: "world \<Rightarrow> bool \<Rightarrow> time_t \<Rightarrow> dmr_frame_t \<Rightarrow> dmr_client_t \<Rightarrow> dmr_client_t" where
  "touched w db now fr c =
     (if dmr_id c = 0 \<and> src_id fr \<noteq> 0
      then c\<lparr>last_seen := now, dmr_id := src_id fr,
             callsign := (if db then (case db_get_callsign w (src_id fr) of
                                        Some n \<Rightarrow> strncpy9 n | None \<Rightarrow> callsign c)
                          else callsign c)\<rparr>
      else c\<lparr>last_seen := now\<rparr>)"

text \<open>The targets of a relay: the active clients whose endpoint is not the excluded one.\<close>

definition relay_target :: "sockaddr_in option \<Rightarrow> dmr_client_t \<Rightarrow> bool" where
  "relay_target ex c =
     (active c \<and> \<not> (case ex of Some e \<Rightarrow> same_endpoint (addr c) e | None \<Rightarrow> False))"

text \<open>
  Frames from a list of senders, processed in order (each with its own reading of the clock);
  the endpoint of a sender; the endpoints of the active sessions.
\<close>

definition register_all ::
  "world \<Rightarrow> (time_t \<times> dmr_frame_t \<times> sockaddr_in) list \<Rightarrow> server_state \<Rightarrow> server_state" where
  "register_all w xs s = fold (\<lambda>(now, fr, a). dmr_process_frame w now fr a) xs s"

definition sender :: "time_t \<times> dmr_frame_t \<times> sockaddr_in \<Rightarrow> u32 \<times> u16" where
  "sender x = endpoint (snd (snd x))"

definition registered_endpoints :: "dmr_client_t list \<Rightarrow> (u32 \<times> u16) set" where
  "registered_endpoints cs = set (map (\<lambda>c. endpoint (addr c)) (filter active cs))"

section \<open>A concrete run\<close>

text \<open>
  Two endpoints A and B: A sends a Sync frame with source 100 at time 0, B a Voice frame with
  source 200 at time 400. The timeout is 300 seconds and database logging is on.
\<close>

definition ex_config :: dmr_config_t where
  "ex_config = \<lparr>port = 62031, verbose = False, timeout = 300, db_enabled = True\<rparr>"

definition ex_world :: world where
  "ex_world = \<lparr>db_get_callsign = (\<lambda>i. if i = 100 then Some ''BG1ABC'' else None),
               sendto = (\<lambda>a b. int (length b))\<rparr>"

definition ex_A :: sockaddr_in where
  "ex_A = \<lparr>sin_family = 2, sin_port = 5000, sin_addr = 0x0A000001\<rparr>"

definition ex_B :: sockaddr_in where
  "ex_B = \<lparr>sin_family = 2, sin_port = 5000, sin_addr = 0x0A000002\<rparr>"

definition ex_frame_A :: dmr_frame_t where
  "ex_frame_A = \<lparr>ftype = 4, slot = 1, src_id = 100, dst_id = 9, payload = replicate 27 0\<rparr>"

definition ex_frame_B :: dmr_frame_t where
  "ex_frame_B = \<lparr>ftype = 1, slot = 2, src_id = 200, dst_id = 9, payload = replicate 27 0\<rparr>"

definition ex_state_A :: server_state where
  "ex_state_A = dmr_process_frame ex_world 0 ex_frame_A ex_A (dmr_server_init ex_config)"

definition ex_state_AB :: server_state where
  "ex_state_AB = dmr_process_frame ex_world 400 ex_frame_B ex_B ex_state_A"

text \<open>
  The loop of \<^verbatim>\<open>dmr_server_run\<close> after A and B have registered, with a stale receive buffer;
  the same first frame with database logging off; a later frame of A with another source.
\<close>

definition ex_run :: run_state where
  "ex_run = \<lparr>srv = ex_state_AB, buffer = replicate 1024 0xFF, frame = ex_frame_A,
             last_cleanup = 0\<rparr>"

definition ex_config_nodb :: dmr_config_t where
  "ex_config_nodb = \<lparr>port = 62031, verbose = False, timeout = 300, db_enabled = False\<rparr>"

definition ex_state_nodb :: server_state where
  "ex_state_nodb = dmr_process_frame ex_world 0 ex_frame_A ex_A (dmr_server_init ex_config_nodb)"

definition ex_frame_A2 :: dmr_frame_t where
  "ex_frame_A2 = \<lparr>ftype = 1, slot = 1, src_id = 555, dst_id = 9, payload = replicate 27 0\<rparr>"

text \<open>A first frame of A without a source identifier.\<close>

definition ex_frame_0 :: dmr_frame_t where
  "ex_frame_0 = \<lparr>ftype = 3, slot = 1, src_id = 0, dst_id = 9, payload = replicate 27 0\<rparr>"

definition ex_state_A0 :: server_state where
  "ex_state_A0 = dmr_process_frame ex_world 0 ex_frame_0 ex_A (dmr_server_init ex_config)"

text \<open>
  A hundred senders with the addresses 0 to 99, a further endpoint C, the loop of
  \<^verbatim>\<open>dmr_server_run\<close> once the hundred have registered, and a full-size datagram.
\<close>

definition ex_hundred :: "(time_t \<times> dmr_frame_t \<times> sockaddr_in) list" where
  "ex_hundred = map (\<lambda>i. (of_nat i, ex_frame_A,
       \<lparr>sin_family = 2, sin_port = 5000, sin_addr = of_nat i\<rparr>)) [0..<100]"

definition ex_C :: sockaddr_in where
  "ex_C = \<lparr>sin_family = 2, sin_port = 5000, sin_addr = 0x0A000003\<rparr>"

definition ex_full :: run_state where
  "ex_full = \<lparr>srv = register_all ex_world ex_hundred (dmr_server_init ex_config),
              buffer = replicate 1024 0xFF, frame = ex_frame_A, last_cleanup = 0\<rparr>"

definition ex_datagram :: "u8 list" where
  "ex_datagram = [1, 2, 0, 0, 200, 0, 0, 9] @ replicate 25 0"

text \<open>
  The server just started, with stale bytes in the receive buffer (all 0xFF) and in the frame
  (all zero); then A and B each send a datagram of six bytes.
\<close>

definition ex_boot :: run_state where
  "ex_boot = \<lparr>srv = dmr_server_init ex_config, buffer = replicate 1024 0xFF,
              frame = \<lparr>ftype = 0, slot = 0, src_id = 0, dst_id = 0, payload = replicate 27 0\<rparr>,
              last_cleanup = 0\<rparr>"

definition ex_short_A :: "u8 list" where "ex_short_A = [4, 1, 0, 0, 100, 0]"
definition ex_short_B :: "u8 list" where "ex_short_B = [1, 2, 0, 0, 200, 0]"

definition ex_short_run :: run_state where
  "ex_short_run = run_receive ex_world 400 ex_short_B ex_B
                    (run_receive ex_world 0 ex_short_A ex_A ex_boot)"

text \<open>A sequence of calls that adds the endpoint A twice.\<close>

definition ex_ops :: "registry_op list" where
  "ex_ops = [Add 0 ex_A 100 None, Add 5 ex_A 100 (Some ''BG1ABCDEFGH''), Add 7 ex_B 0 None,
             Remove ex_A, Cleanup 400, Process ex_world 401 ex_frame_B ex_B]"

section \<open>Lemmas on the loops\<close>

lemma same_endpoint_iff: "same_endpoint a b \<longleftrightarrow> endpoint a = endpoint b"
  by (simp add: same_endpoint_def endpoint_def)

lemma first_slot_Some:
  "first_slot P cs = Some i \<Longrightarrow> i < DMR_MAX_CLIENTS \<and> P (cs ! i) \<and> (\<forall>j<i. \<not> P (cs ! j))"
  unfolding first_slot_def by (auto simp: find_Some_iff)

lemma first_slot_None:
  "first_slot P cs = None \<longleftrightarrow> (\<forall>i<DMR_MAX_CLIENTS. \<not> P (cs ! i))"
  unfolding first_slot_def by (auto simp: find_None_iff)

lemma count_active_activate:
  "i < length cs \<Longrightarrow> \<not> active (cs ! i) \<Longrightarrow> active c \<Longrightarrow>
   count_active (cs[i := c]) = Suc (count_active cs)"
  unfolding count_active_def
  by (induction cs arbitrary: i) (auto simp: nth_Cons split: nat.splits)

lemma count_active_deactivate:
  "i < length cs \<Longrightarrow> active (cs ! i) \<Longrightarrow> \<not> active c \<Longrightarrow>
   Suc (count_active (cs[i := c])) = count_active cs"
  unfolding count_active_def
  by (induction cs arbitrary: i) (auto simp: nth_Cons split: nat.splits)

lemma count_active_keep:
  "active c = active (cs ! i) \<Longrightarrow> count_active (cs[i := c]) = count_active cs"
  unfolding count_active_def
  by (induction cs arbitrary: i) (auto simp: nth_Cons split: nat.splits)

lemma count_active_le: "count_active cs \<le> length cs"
  by (simp add: count_active_def)

lemma unique_endpoints_nth:
  "unique_endpoints cs \<longleftrightarrow>
   (\<forall>i<length cs. \<forall>j<length cs. active (cs ! i) \<and> active (cs ! j)
       \<and> endpoint (addr (cs ! i)) = endpoint (addr (cs ! j)) \<longrightarrow> i = j)"
proof (induction cs)
  case Nil
  show ?case by (simp add: unique_endpoints_def)
next
  case (Cons c cs)
  have in_set: "endpoint (addr c) \<in> (\<lambda>c. endpoint (addr c)) ` {x \<in> set cs. active x}
      \<longleftrightarrow> (\<exists>j<length cs. active (cs ! j) \<and> endpoint (addr (cs ! j)) = endpoint (addr c))"
    by (auto simp: in_set_conv_nth image_iff)
  show ?case
  proof (cases "active c")
    case True
    have "unique_endpoints (c # cs) \<longleftrightarrow>
       \<not> (\<exists>j<length cs. active (cs ! j) \<and> endpoint (addr (cs ! j)) = endpoint (addr c))
       \<and> unique_endpoints cs"
      using True in_set by (simp add: unique_endpoints_def)
    also have "\<dots> \<longleftrightarrow> (\<forall>i<length (c # cs). \<forall>j<length (c # cs).
        active ((c # cs) ! i) \<and> active ((c # cs) ! j)
        \<and> endpoint (addr ((c # cs) ! i)) = endpoint (addr ((c # cs) ! j)) \<longrightarrow> i = j)"
      (is "?L \<longleftrightarrow> ?R")
    proof
      assume L: ?L
      show ?R
      proof (intro allI impI)
        fix i j
        assume "i < length (c # cs)" "j < length (c # cs)"
          and "active ((c # cs) ! i) \<and> active ((c # cs) ! j)
             \<and> endpoint (addr ((c # cs) ! i)) = endpoint (addr ((c # cs) ! j))"
        then show "i = j"
          using L Cons.IH by (cases i; cases j) (auto simp: True)
      qed
    next
      assume R: ?R
      have a: "\<not> (\<exists>j<length cs. active (cs ! j) \<and> endpoint (addr (cs ! j)) = endpoint (addr c))"
      proof
        assume "\<exists>j<length cs. active (cs ! j) \<and> endpoint (addr (cs ! j)) = endpoint (addr c)"
        then obtain j where "j < length cs" "active (cs ! j)"
          "endpoint (addr (cs ! j)) = endpoint (addr c)" by blast
        then have "Suc j = 0" using R[rule_format, of "Suc j" 0] True by simp
        then show False by simp
      qed
      have b: "unique_endpoints cs"
        unfolding Cons.IH
      proof (intro allI impI)
        fix i j
        assume "i < length cs" "j < length cs"
          and "active (cs ! i) \<and> active (cs ! j)
             \<and> endpoint (addr (cs ! i)) = endpoint (addr (cs ! j))"
        then have "Suc i = Suc j" using R[rule_format, of "Suc i" "Suc j"] by simp
        then show "i = j" by simp
      qed
      from a b show ?L by simp
    qed
    finally show ?thesis .
  next
    case False
    have "unique_endpoints (c # cs) \<longleftrightarrow> unique_endpoints cs"
      using False by (simp add: unique_endpoints_def)
    also have "\<dots> \<longleftrightarrow> (\<forall>i<length (c # cs). \<forall>j<length (c # cs).
        active ((c # cs) ! i) \<and> active ((c # cs) ! j)
        \<and> endpoint (addr ((c # cs) ! i)) = endpoint (addr ((c # cs) ! j)) \<longrightarrow> i = j)"
      (is "?L \<longleftrightarrow> ?R")
    proof
      assume L: ?L
      show ?R
      proof (intro allI impI)
        fix i j
        assume "i < length (c # cs)" "j < length (c # cs)"
          and "active ((c # cs) ! i) \<and> active ((c # cs) ! j)
             \<and> endpoint (addr ((c # cs) ! i)) = endpoint (addr ((c # cs) ! j))"
        then show "i = j"
          using L[unfolded Cons.IH] False by (cases i; cases j) auto
      qed
    next
      assume R: ?R
      show ?L
        unfolding Cons.IH
      proof (intro allI impI)
        fix i j
        assume "i < length cs" "j < length cs"
          and "active (cs ! i) \<and> active (cs ! j)
             \<and> endpoint (addr (cs ! i)) = endpoint (addr (cs ! j))"
        then have "Suc i = Suc j" using R[rule_format, of "Suc i" "Suc j"] by simp
        then show "i = j" by simp
      qed
    qed
    finally show ?thesis .
  qed
qed

lemma log_client_fields [simp]:
  "clients (log_client i e s) = clients s"
  "client_count (log_client i e s) = client_count s"
  "server_config (log_client i e s) = server_config s"
  "sent (log_client i e s) = sent s"
  "db_lookups (log_client i e s) = db_lookups s"
  "db_frames (log_client i e s) = db_frames s"
  by (simp_all add: log_client_def)

lemma log_client_events:
  "db_events (log_client i e s) =
     db_events s @ (if db_enabled (server_config s) then [(e, clients s ! i)] else [])"
  by (simp add: log_client_def)

text \<open>
  The difference of two times is exact when it fits in \<^verbatim>\<open>time_t\<close>; otherwise it wraps: at
  the largest \<^verbatim>\<open>time_t\<close>, a session last seen at time -10 is not found expired.
\<close>

lemma time_diff_exact:
  fixes a b :: time_t
  assumes "- (2 ^ 63) \<le> sint a - sint b" and "sint a - sint b < 2 ^ 63"
  shows "sint (a - b) = sint a - sint b"
  using assms by (simp add: sint_word_ariths signed_take_bit_int_eq_self)

lemma time_diff_wraps:
  "\<not> expired 0x7FFFFFFFFFFFFFFF 300
      \<lparr>addr = zero_addr, last_seen = - 10, dmr_id = 0, active = True, callsign = []\<rparr>"
  by (simp add: expired_def)

lemma cleanup_slot_eq:
  "cleanup_slot now i s =
     (if expired now (timeout (server_config s)) (clients s ! i)
      then s\<lparr>db_events := db_events s @
                (if db_enabled (server_config s) then [(''timeout'', clients s ! i)] else []),
             clients := (clients s)[i := expire now (timeout (server_config s)) (clients s ! i)],
             client_count := client_count s - 1\<rparr>
      else s)"
  by (simp add: cleanup_slot_def expired_def expire_def log_client_def Let_def)

lemma cleanup_fold:
  "n \<le> length (clients s) \<Longrightarrow>
   fold (cleanup_slot now) [0..<n] s =
     s\<lparr>db_events := db_events s @
          (if db_enabled (server_config s)
           then map (Pair ''timeout'')
                  (filter (expired now (timeout (server_config s))) (take n (clients s)))
           else []),
       clients := map (expire now (timeout (server_config s))) (take n (clients s))
                  @ drop n (clients s),
       client_count := client_count s
          - int (length (filter (expired now (timeout (server_config s))) (take n (clients s))))\<rparr>"
proof (induction n)
  case 0
  show ?case by simp
next
  case (Suc n)
  then have n: "n < length (clients s)" by simp
  let ?cs = "clients s"
  let ?e = "expire now (timeout (server_config s))"
  have nth: "(map ?e (take n ?cs) @ drop n ?cs) ! n = ?cs ! n"
    using n by (simp add: nth_append)
  have upd: "(map ?e (take n ?cs) @ drop n ?cs)[n := ?e (?cs ! n)]
      = map ?e (take (Suc n) ?cs) @ drop (Suc n) ?cs"
    using n by (simp add: list_update_append take_Suc_conv_app_nth Cons_nth_drop_Suc[symmetric])
  have same: "\<not> expired now (timeout (server_config s)) (?cs ! n) \<Longrightarrow> ?e (?cs ! n) = ?cs ! n"
    by (simp add: expire_def)
  show ?case
    using Suc.IH n nth upd
    apply (simp add: cleanup_slot_eq take_Suc_conv_app_nth)
    apply (auto simp: expire_def Cons_nth_drop_Suc)
    done
qed

lemma dmr_cleanup_clients_eq:
  "wf_state s \<Longrightarrow>
   dmr_cleanup_clients now s =
     s\<lparr>db_events := db_events s @
          (if db_enabled (server_config s)
           then map (Pair ''timeout'')
                  (filter (expired now (timeout (server_config s))) (clients s))
           else []),
       clients := map (expire now (timeout (server_config s))) (clients s),
       client_count := client_count s
          - int (length (filter (expired now (timeout (server_config s))) (clients s)))\<rparr>"
  unfolding dmr_cleanup_clients_def wf_state_def
  using cleanup_fold[of DMR_MAX_CLIENTS s now] by simp

subsection \<open>Adding a client\<close>

lemma add_client_full:
  "first_slot (\<lambda>c. \<not> active c) (clients s) = None \<Longrightarrow> dmr_add_client now a ident cs s = (-1, s)"
  by (simp add: dmr_add_client_def)

lemma add_client_free:
  assumes "first_slot (\<lambda>c. \<not> active c) (clients s) = Some i"
  shows "fst (dmr_add_client now a ident cs s) = 0"
    and "clients (snd (dmr_add_client now a ident cs s)) =
           (clients s)[i := \<lparr>addr = a, last_seen = now, dmr_id = ident, active = True,
              callsign = (case cs of Some n \<Rightarrow> strncpy9 n | None \<Rightarrow> [])\<rparr>]"
    and "client_count (snd (dmr_add_client now a ident cs s)) = client_count s + 1"
    and "server_config (snd (dmr_add_client now a ident cs s)) = server_config s"
    and "sent (snd (dmr_add_client now a ident cs s)) = sent s"
    and "db_lookups (snd (dmr_add_client now a ident cs s)) = db_lookups s"
  using assms by (simp_all add: dmr_add_client_def Let_def)

lemma add_client_fields [simp]:
  "server_config (snd (dmr_add_client now a ident cs s)) = server_config s"
  "sent (snd (dmr_add_client now a ident cs s)) = sent s"
  "db_lookups (snd (dmr_add_client now a ident cs s)) = db_lookups s"
  "length (clients (snd (dmr_add_client now a ident cs s))) = length (clients s)"
  by (simp_all add: dmr_add_client_def Let_def split: option.splits)

subsection \<open>Removing a client\<close>

lemma remove_client_unknown:
  "first_slot (client_matches a) (clients s) = None \<Longrightarrow> dmr_remove_client a s = (-1, s)"
  by (simp add: dmr_remove_client_def)

lemma remove_client_known:
  assumes "first_slot (client_matches a) (clients s) = Some i"
  shows "fst (dmr_remove_client a s) = 0"
    and "clients (snd (dmr_remove_client a s)) = (clients s)[i := (clients s ! i)\<lparr>active := False\<rparr>]"
    and "client_count (snd (dmr_remove_client a s)) = client_count s - 1"
    and "db_events (snd (dmr_remove_client a s)) =
           db_events s @ (if db_enabled (server_config s)
                          then [(''disconnect'', clients s ! i), (''timeout'', clients s ! i)]
                          else [])"
  using assms by (simp_all add: dmr_remove_client_def Let_def log_client_events)

lemma remove_client_fields [simp]:
  "server_config (snd (dmr_remove_client a s)) = server_config s"
  "sent (snd (dmr_remove_client a s)) = sent s"
  "db_lookups (snd (dmr_remove_client a s)) = db_lookups s"
  "length (clients (snd (dmr_remove_client a s))) = length (clients s)"
  by (simp_all add: dmr_remove_client_def Let_def split: option.splits)

subsection \<open>Processing a frame\<close>

lemma touch_client_eq:
  "i < length (clients s) \<Longrightarrow>
   touch_client w now fr i s =
     s\<lparr>clients := (clients s)[i := touched w (db_enabled (server_config s)) now fr (clients s ! i)],
       db_lookups := db_lookups s @
          (if dmr_id (clients s ! i) = 0 \<and> src_id fr \<noteq> 0 \<and> db_enabled (server_config s)
           then [src_id fr] else [])\<rparr>"
  by (auto simp: touch_client_def touched_def Let_def split: option.splits)

lemma touched_fields [simp]:
  "active (touched w db now fr c) = active c"
  "addr (touched w db now fr c) = addr c"
  "last_seen (touched w db now fr c) = now"
  by (simp_all add: touched_def)

lemma touched_dmr_id:
  "dmr_id (touched w db now fr c) = (if dmr_id c = 0 then src_id fr else dmr_id c)"
  by (simp add: touched_def)

lemma process_frame_found:
  assumes "first_slot (client_matches a) (clients s) = Some i" and "wf_state s"
  shows "clients (dmr_process_frame w now fr a s) =
           (clients s)[i := touched w (db_enabled (server_config s)) now fr (clients s ! i)]"
    and "client_count (dmr_process_frame w now fr a s) = client_count s"
    and "db_lookups (dmr_process_frame w now fr a s) = db_lookups s @
          (if dmr_id (clients s ! i) = 0 \<and> src_id fr \<noteq> 0 \<and> db_enabled (server_config s)
           then [src_id fr] else [])"
proof -
  from assms have i: "i < length (clients s)"
    by (auto dest: first_slot_Some simp: wf_state_def)
  show "clients (dmr_process_frame w now fr a s) =
           (clients s)[i := touched w (db_enabled (server_config s)) now fr (clients s ! i)]"
    and "client_count (dmr_process_frame w now fr a s) = client_count s"
    and "db_lookups (dmr_process_frame w now fr a s) = db_lookups s @
          (if dmr_id (clients s ! i) = 0 \<and> src_id fr \<noteq> 0 \<and> db_enabled (server_config s)
           then [src_id fr] else [])"
    using assms(1) i by (simp_all add: dmr_process_frame_def touch_client_eq Let_def)
qed

lemma process_frame_new:
  assumes "first_slot (client_matches a) (clients s) = None"
  shows "clients (dmr_process_frame w now fr a s) =
           clients (snd (dmr_add_client now a (src_id fr) None s))"
    and "client_count (dmr_process_frame w now fr a s) =
           client_count (snd (dmr_add_client now a (src_id fr) None s))"
    and "db_lookups (dmr_process_frame w now fr a s) = db_lookups s"
  using assms by (simp_all add: dmr_process_frame_def Let_def)

lemma process_frame_fields [simp]:
  "server_config (dmr_process_frame w now fr a s) = server_config s"
  "sent (dmr_process_frame w now fr a s) = sent s"
  "length (clients (dmr_process_frame w now fr a s)) = length (clients s)"
  by (auto simp: dmr_process_frame_def touch_client_def Let_def split: option.splits)

subsection \<open>Relaying a frame\<close>

lemma relay_slot_fields [simp]:
  "clients (relay_slot w buf ex i s) = clients s"
  "client_count (relay_slot w buf ex i s) = client_count s"
  "server_config (relay_slot w buf ex i s) = server_config s"
  "db_events (relay_slot w buf ex i s) = db_events s"
  "db_frames (relay_slot w buf ex i s) = db_frames s"
  "db_lookups (relay_slot w buf ex i s) = db_lookups s"
  by (simp_all add: relay_slot_def Let_def)

lemma relay_fold_fields [simp]:
  "clients (fold (relay_slot w buf ex) xs s) = clients s"
  "client_count (fold (relay_slot w buf ex) xs s) = client_count s"
  "server_config (fold (relay_slot w buf ex) xs s) = server_config s"
  "db_events (fold (relay_slot w buf ex) xs s) = db_events s"
  "db_frames (fold (relay_slot w buf ex) xs s) = db_frames s"
  "db_lookups (fold (relay_slot w buf ex) xs s) = db_lookups s"
  by (induction xs arbitrary: s; simp)+

lemma relay_frame_fields [simp]:
  "clients (dmr_relay_frame w fr ex s) = clients s"
  "client_count (dmr_relay_frame w fr ex s) = client_count s"
  "server_config (dmr_relay_frame w fr ex s) = server_config s"
  "db_events (dmr_relay_frame w fr ex s) = db_events s"
  "db_frames (dmr_relay_frame w fr ex s) = db_frames s"
  "db_lookups (dmr_relay_frame w fr ex s) = db_lookups s"
  by (simp_all add: dmr_relay_frame_def)

lemma relay_slot_sent:
  "sent (relay_slot w buf ex i s) =
     sent s @ (if relay_target ex (clients s ! i) then [(addr (clients s ! i), buf)] else [])"
  by (simp add: relay_slot_def relay_target_def Let_def)

lemma relay_fold_sent:
  "n \<le> length (clients s) \<Longrightarrow>
   sent (fold (relay_slot w buf ex) [0..<n] s) =
     sent s @ map (\<lambda>c. (addr c, buf)) (filter (relay_target ex) (take n (clients s)))"
  by (induction n) (simp_all add: relay_slot_sent take_Suc_conv_app_nth)

lemma relay_frame_sent:
  "wf_state s \<Longrightarrow>
   sent (dmr_relay_frame w fr ex s) =
     sent s @ map (\<lambda>c. (addr c, relay_buffer fr)) (filter (relay_target ex) (clients s))"
  unfolding dmr_relay_frame_def wf_state_def
  using relay_fold_sent[of DMR_MAX_CLIENTS s w "relay_buffer fr" ex] by simp

subsection \<open>Invariants\<close>

lemma registry_inv_alt: "registry_inv s \<longleftrightarrow> counter_inv s \<and> unique_endpoints (clients s)"
  by (auto simp: registry_inv_def counter_inv_def)

subsection \<open>The counter\<close>

lemma counter_inv_init: "counter_inv (dmr_server_init config)"
  by (simp add: counter_inv_def wf_state_def dmr_server_init_def count_active_def zero_client_def)

lemma counter_inv_add:
  assumes "counter_inv s"
  shows "counter_inv (snd (dmr_add_client now a ident cs s))"
proof (cases "first_slot (\<lambda>c. \<not> active c) (clients s)")
  case None
  with assms show ?thesis by (simp add: add_client_full)
next
  case (Some i)
  from first_slot_Some[OF Some] assms have i: "i < length (clients s)" "\<not> active (clients s ! i)"
    by (simp_all add: counter_inv_def wf_state_def)
  show ?thesis
    using assms i
    by (simp add: counter_inv_def wf_state_def add_client_free[OF Some] count_active_activate)
qed

lemma counter_inv_remove:
  assumes "counter_inv s"
  shows "counter_inv (snd (dmr_remove_client a s))"
proof (cases "first_slot (client_matches a) (clients s)")
  case None
  with assms show ?thesis by (simp add: remove_client_unknown)
next
  case (Some i)
  from first_slot_Some[OF Some] assms have i: "i < length (clients s)" "active (clients s ! i)"
    by (simp_all add: counter_inv_def wf_state_def client_matches_def)
  have "Suc (count_active ((clients s)[i := (clients s ! i)\<lparr>active := False\<rparr>]))
      = count_active (clients s)"
    using i by (intro count_active_deactivate) simp_all
  then show ?thesis
    using assms by (simp add: counter_inv_def wf_state_def remove_client_known[OF Some])
qed

lemma count_active_expire:
  "count_active (map (expire now t) cs) + length (filter (expired now t) cs) = count_active cs"
  by (induction cs) (auto simp: count_active_def expire_def expired_def)

lemma counter_inv_cleanup:
  assumes "counter_inv s"
  shows "counter_inv (dmr_cleanup_clients now s)"
proof -
  from assms have wf: "wf_state s" by (simp add: counter_inv_def)
  show ?thesis
    using assms count_active_expire[of now "timeout (server_config s)" "clients s"]
    by (simp add: counter_inv_def wf_state_def dmr_cleanup_clients_eq[OF wf])
qed

lemma counter_inv_process:
  assumes "counter_inv s"
  shows "counter_inv (dmr_process_frame w now fr a s)"
proof (cases "first_slot (client_matches a) (clients s)")
  case None
  from counter_inv_add[OF assms, of now a "src_id fr" None] show ?thesis
    by (simp add: counter_inv_def wf_state_def process_frame_new[OF None])
next
  case (Some i)
  from assms have wf: "wf_state s" by (simp add: counter_inv_def)
  show ?thesis
    using assms
    by (simp add: counter_inv_def wf_state_def process_frame_found[OF Some wf] count_active_keep)
qed

lemma counter_inv_relay: "counter_inv s \<Longrightarrow> counter_inv (dmr_relay_frame w fr ex s)"
  by (simp add: counter_inv_def wf_state_def)

lemma counter_inv_bounds:
  "counter_inv s \<Longrightarrow> 0 \<le> client_count s \<and> client_count s \<le> int DMR_MAX_CLIENTS"
  using count_active_le[of "clients s"] by (simp add: counter_inv_def wf_state_def)

subsection \<open>One session per endpoint\<close>

lemma unique_endpoints_shrink:
  assumes "unique_endpoints cs" and "length cs' = length cs"
    and "\<And>i. i < length cs \<Longrightarrow> active (cs' ! i) \<Longrightarrow>
           active (cs ! i) \<and> addr (cs' ! i) = addr (cs ! i)"
  shows "unique_endpoints cs'"
  using assms unfolding unique_endpoints_nth by metis

lemma unique_endpoints_put:
  assumes "unique_endpoints cs" and "i < length cs"
    and "\<And>j. j < length cs \<Longrightarrow> j \<noteq> i \<Longrightarrow> active (cs ! j) \<Longrightarrow>
           endpoint (addr (cs ! j)) \<noteq> endpoint (addr c)"
  shows "unique_endpoints (cs[i := c])"
  unfolding unique_endpoints_nth
proof (intro allI impI)
  fix j k
  assume j: "j < length (cs[i := c])" and k: "k < length (cs[i := c])"
    and h: "active (cs[i := c] ! j) \<and> active (cs[i := c] ! k)
       \<and> endpoint (addr (cs[i := c] ! j)) = endpoint (addr (cs[i := c] ! k))"
  show "j = k"
  proof (cases "j = i"; cases "k = i")
    assume "j = i" "k = i" then show ?thesis by simp
  next
    assume "j = i" "k \<noteq> i"
    with j k h assms(2) assms(3)[of k] show ?thesis by (auto simp: nth_list_update)
  next
    assume "j \<noteq> i" "k = i"
    with j k h assms(2) assms(3)[of j] show ?thesis by (auto simp: nth_list_update)
  next
    assume "j \<noteq> i" "k \<noteq> i"
    with j k h assms(1)[unfolded unique_endpoints_nth] show ?thesis
      by (auto simp: nth_list_update)
  qed
qed

lemma unique_init: "unique_endpoints (clients (dmr_server_init config))"
  by (simp add: unique_endpoints_def dmr_server_init_def zero_client_def)

lemma unique_add:
  assumes "wf_state s" and "unique_endpoints (clients s)" and "\<not> registered a s"
  shows "unique_endpoints (clients (snd (dmr_add_client now a ident cs s)))"
proof (cases "first_slot (\<lambda>c. \<not> active c) (clients s)")
  case None
  with assms show ?thesis by (simp add: add_client_full)
next
  case (Some i)
  from first_slot_Some[OF Some] assms(1) have i: "i < length (clients s)"
    by (simp add: wf_state_def)
  have other: "endpoint (addr (clients s ! j)) \<noteq> endpoint a"
    if "j < length (clients s)" "active (clients s ! j)" for j
    using assms(1,3) that
    by (auto simp: registered_def first_slot_None wf_state_def client_matches_def same_endpoint_iff)
  show ?thesis
    unfolding add_client_free[OF Some]
    by (rule unique_endpoints_put[OF assms(2) i]) (simp add: other)
qed

lemma unique_remove:
  assumes "wf_state s" and "unique_endpoints (clients s)"
  shows "unique_endpoints (clients (snd (dmr_remove_client a s)))"
proof (cases "first_slot (client_matches a) (clients s)")
  case None
  with assms show ?thesis by (simp add: remove_client_unknown)
next
  case (Some i)
  from first_slot_Some[OF Some] assms(1) have i: "i < length (clients s)"
    by (simp add: wf_state_def)
  show ?thesis
    unfolding remove_client_known[OF Some]
    using i by (intro unique_endpoints_shrink[OF assms(2)]) (auto simp: nth_list_update split: if_splits)
qed

lemma unique_cleanup:
  assumes "wf_state s" and "unique_endpoints (clients s)"
  shows "unique_endpoints (clients (dmr_cleanup_clients now s))"
  unfolding dmr_cleanup_clients_eq[OF assms(1)]
  by (rule unique_endpoints_shrink[OF assms(2)]) (auto simp: expire_def split: if_splits)

lemma unique_process:
  assumes "wf_state s" and "unique_endpoints (clients s)"
  shows "unique_endpoints (clients (dmr_process_frame w now fr a s))"
proof (cases "first_slot (client_matches a) (clients s)")
  case None
  then have "\<not> registered a s" by (simp add: registered_def)
  from unique_add[OF assms this] show ?thesis by (simp add: process_frame_new[OF None])
next
  case (Some i)
  from first_slot_Some[OF Some] assms(1) have i: "i < length (clients s)"
    by (simp add: wf_state_def)
  show ?thesis
    unfolding process_frame_found[OF Some assms(1)]
    using i by (intro unique_endpoints_shrink[OF assms(2)]) (auto simp: nth_list_update split: if_splits)
qed

lemma registry_inv_reachable: "reachable config s \<Longrightarrow> registry_inv s"
proof (induction rule: reachable.induct)
  case init
  show ?case by (simp add: registry_inv_alt counter_inv_init unique_init)
next
  case (frame s w now fr a)
  then have "counter_inv s" "wf_state s" "unique_endpoints (clients s)"
    by (simp_all add: registry_inv_alt counter_inv_def)
  then show ?case
    by (simp add: registry_inv_alt counter_inv_process unique_process)
next
  case (relay s w fr ex)
  then have "counter_inv s" "unique_endpoints (clients s)"
    by (simp_all add: registry_inv_alt)
  then show ?case by (simp add: registry_inv_alt counter_inv_relay)
next
  case (add s a now ident cs)
  then have "counter_inv s" "wf_state s" "unique_endpoints (clients s)" "\<not> registered a s"
    by (simp_all add: registry_inv_alt counter_inv_def)
  then show ?case
    by (simp add: registry_inv_alt counter_inv_add unique_add)
next
  case (remove s a)
  then have "counter_inv s" "wf_state s" "unique_endpoints (clients s)"
    by (simp_all add: registry_inv_alt counter_inv_def)
  then show ?case
    by (simp add: registry_inv_alt counter_inv_remove unique_remove)
next
  case (cleanup s now)
  then have "counter_inv s" "wf_state s" "unique_endpoints (clients s)"
    by (simp_all add: registry_inv_alt counter_inv_def)
  then show ?case
    by (simp add: registry_inv_alt counter_inv_cleanup unique_cleanup)
qed

lemma counter_inv_apply_op: "counter_inv s \<Longrightarrow> counter_inv (apply_op op s)"
  by (cases op)
    (simp_all add: counter_inv_add counter_inv_remove counter_inv_cleanup counter_inv_process)

lemma counter_inv_run_ops: "counter_inv s \<Longrightarrow> counter_inv (run_ops ops s)"
  unfolding run_ops_def by (induction ops arbitrary: s) (simp_all add: counter_inv_apply_op)

subsection \<open>Counting the targets of a relay\<close>



lemma registered_iff:
  assumes "wf_state s"
  shows "registered a s \<longleftrightarrow> (\<exists>c\<in>set (clients s). client_matches a c)"
proof -
  from assms have len: "length (clients s) = DMR_MAX_CLIENTS" by (simp add: wf_state_def)
  have "registered a s \<longleftrightarrow> (\<exists>i<length (clients s). client_matches a (clients s ! i))"
    by (simp add: registered_def first_slot_None len)
  also have "\<dots> \<longleftrightarrow> (\<exists>c\<in>set (clients s). client_matches a c)"
    by (metis in_set_conv_nth)
  finally show ?thesis .
qed



subsection \<open>The statistics counters and the cleanup\<close>

lemma cleanup_slot_stats:
  "cleanup_slot now i (s\<lparr>packets_received := p, bytes_received := b\<rparr>)
     = (cleanup_slot now i s)\<lparr>packets_received := p, bytes_received := b\<rparr>"
  by (simp add: cleanup_slot_def log_client_def Let_def)

lemma cleanup_fold_stats:
  "fold (cleanup_slot now) xs (s\<lparr>packets_received := p, bytes_received := b\<rparr>)
     = (fold (cleanup_slot now) xs s)\<lparr>packets_received := p, bytes_received := b\<rparr>"
  by (induction xs arbitrary: s) (simp_all add: cleanup_slot_stats)

lemma cleanup_fold_stats_fields [simp]:
  "packets_received (fold (cleanup_slot now) xs s) = packets_received s"
  "bytes_received (fold (cleanup_slot now) xs s) = bytes_received s"
  by (induction xs arbitrary: s; simp add: cleanup_slot_def log_client_def Let_def)+

subsection \<open>Registering distinct endpoints\<close>

lemma all_active_iff:
  assumes "wf_state s"
  shows "first_slot (\<lambda>c. \<not> active c) (clients s) = None \<longleftrightarrow> (\<forall>c\<in>set (clients s). active c)"
proof -
  from assms have len: "length (clients s) = DMR_MAX_CLIENTS" by (simp add: wf_state_def)
  have "first_slot (\<lambda>c. \<not> active c) (clients s) = None
      \<longleftrightarrow> (\<forall>i<length (clients s). active (clients s ! i))"
    by (simp add: first_slot_None len)
  also have "\<dots> \<longleftrightarrow> (\<forall>c\<in>set (clients s). active c)"
    by (metis in_set_conv_nth)
  finally show ?thesis .
qed

lemma full_iff:
  assumes "wf_state s"
  shows "first_slot (\<lambda>c. \<not> active c) (clients s) = None
     \<longleftrightarrow> count_active (clients s) = DMR_MAX_CLIENTS"
proof -
  from assms have len: "length (clients s) = DMR_MAX_CLIENTS" by (simp add: wf_state_def)
  have "(\<forall>c\<in>set (clients s). active c) \<longleftrightarrow> length (filter active (clients s)) = length (clients s)"
    by (metis filter_True length_filter_less less_irrefl)
  then show ?thesis
    by (simp add: all_active_iff[OF assms] count_active_def len)
qed

lemma registered_endpoints_iff:
  assumes "wf_state s"
  shows "registered a s \<longleftrightarrow> endpoint a \<in> registered_endpoints (clients s)"
  unfolding registered_iff[OF assms] registered_endpoints_def
  by (force simp: client_matches_def same_endpoint_iff)

lemma registered_endpoints_activate:
  assumes "i < length cs" and "\<not> active (cs ! i)" and "active c"
  shows "registered_endpoints (cs[i := c]) = insert (endpoint (addr c)) (registered_endpoints cs)"
proof -
  have a: "cs[i := c] = take i cs @ c # drop (Suc i) cs"
    using assms(1) by (rule upd_conv_take_nth_drop)
  have b: "cs = take i cs @ cs ! i # drop (Suc i) cs"
    using assms(1) by (rule id_take_nth_drop)
  have "registered_endpoints (take i cs @ c # drop (Suc i) cs)
      = insert (endpoint (addr c)) (registered_endpoints (take i cs @ cs ! i # drop (Suc i) cs))"
    using assms(2,3) by (auto simp: registered_endpoints_def)
  with a b show ?thesis by simp
qed

lemma register_all_snoc:
  "register_all w (xs @ [(now, fr, a)]) s = dmr_process_frame w now fr a (register_all w xs s)"
  by (simp add: register_all_def)

lemma register_all_inv:
  assumes "distinct (map sender xs)" and "length xs \<le> DMR_MAX_CLIENTS"
  shows "counter_inv (register_all w xs (dmr_server_init config))
    \<and> count_active (clients (register_all w xs (dmr_server_init config))) = length xs
    \<and> registered_endpoints (clients (register_all w xs (dmr_server_init config)))
        = set (map sender xs)"
  using assms
proof (induction xs rule: rev_induct)
  case Nil
  have "clients (dmr_server_init config) = replicate DMR_MAX_CLIENTS zero_client"
    by (simp add: dmr_server_init_def)
  then show ?case
    by (simp add: register_all_def counter_inv_init registered_endpoints_def count_active_def
        zero_client_def)
next
  case (snoc x xs)
  obtain now fr a where x: "x = (now, fr, a)" by (cases x)
  let ?s = "register_all w xs (dmr_server_init config)"
  from snoc have ih: "counter_inv ?s" "count_active (clients ?s) = length xs"
    "registered_endpoints (clients ?s) = set (map sender xs)"
    and new: "endpoint a \<notin> set (map sender xs)" and room: "length xs < DMR_MAX_CLIENTS"
    by (simp_all add: x sender_def)
  from ih(1) have wf: "wf_state ?s" by (simp add: counter_inv_def)
  from new ih(3) have unreg: "\<not> registered a ?s"
    by (simp add: registered_endpoints_iff[OF wf])
  then have none: "first_slot (client_matches a) (clients ?s) = None"
    by (simp add: registered_def)
  from room ih(2) full_iff[OF wf]
  obtain i where free: "first_slot (\<lambda>c. \<not> active c) (clients ?s) = Some i"
    by (cases "first_slot (\<lambda>c. \<not> active c) (clients ?s)") auto
  from first_slot_Some[OF free] wf have i: "i < length (clients ?s)" "\<not> active (clients ?s ! i)"
    by (simp_all add: wf_state_def)
  let ?s' = "dmr_process_frame w now fr a ?s"
  have cl: "clients ?s' = (clients ?s)[i := \<lparr>addr = a, last_seen = now, dmr_id = src_id fr,
       active = True, callsign = []\<rparr>]"
    by (simp add: process_frame_new[OF none] add_client_free[OF free])
  have 1: "counter_inv ?s'" by (rule counter_inv_process[OF ih(1)])
  have 2: "count_active (clients ?s') = Suc (length xs)"
    unfolding cl using i ih(2) by (simp add: count_active_activate)
  have 3: "registered_endpoints (clients ?s') = insert (endpoint a) (set (map sender xs))"
    unfolding cl using i ih(3) by (simp add: registered_endpoints_activate)
  from 1 2 3 show ?case
    by (simp add: x register_all_snoc sender_def)
qed

subsection \<open>A frame received when the registry is full\<close>

lemma run_receive_long:
  assumes "DMR_HEADER_SIZE \<le> length d"
  shows "run_receive w t d a r =
    r\<lparr>buffer := recv_into (buffer r) d,
      frame := parse_frame (recv_into (buffer r) d) (min (length d) DMR_BUFFER_SIZE) (frame r),
      srv := dmr_relay_frame w
               (parse_frame (recv_into (buffer r) d) (min (length d) DMR_BUFFER_SIZE) (frame r))
               (Some a)
               (dmr_process_frame w t
                  (parse_frame (recv_into (buffer r) d) (min (length d) DMR_BUFFER_SIZE) (frame r))
                  a
                  ((srv r)\<lparr>packets_received := packets_received (srv r) + 1,
                          bytes_received := bytes_received (srv r)
                             + of_nat (min (length d) DMR_BUFFER_SIZE)\<rparr>))\<rparr>"
proof -
  from assms have "DMR_HEADER_SIZE \<le> min (length d) DMR_BUFFER_SIZE"
    by (simp add: DMR_HEADER_SIZE_def DMR_BUFFER_SIZE_def)
  then show ?thesis by (simp add: run_receive_def Let_def)
qed

lemma full_registry_receive:
  assumes wf: "wf_state (srv r)"
    and full: "first_slot (\<lambda>c. \<not> active c) (clients (srv r)) = None"
    and new: "\<not> registered a (srv r)"
    and long: "DMR_HEADER_SIZE \<le> length d"
  shows "clients (srv (run_receive w t d a r)) = clients (srv r)"
    and "client_count (srv (run_receive w t d a r)) = client_count (srv r)"
    and "sent (srv (run_receive w t d a r)) = sent (srv r) @
           map (\<lambda>c. (addr c, relay_buffer (frame (run_receive w t d a r)))) (clients (srv r))"
proof -
  let ?fr = "parse_frame (recv_into (buffer r) d) (min (length d) DMR_BUFFER_SIZE) (frame r)"
  let ?s0 = "(srv r)\<lparr>packets_received := packets_received (srv r) + 1,
                    bytes_received := bytes_received (srv r)
                       + of_nat (min (length d) DMR_BUFFER_SIZE)\<rparr>"
  let ?s1 = "dmr_process_frame w t ?fr a ?s0"
  from new have none: "first_slot (client_matches a) (clients ?s0) = None"
    by (simp add: registered_def)
  from full have full0: "first_slot (\<lambda>c. \<not> active c) (clients ?s0) = None" by simp
  have c1: "clients ?s1 = clients (srv r)" and n1: "client_count ?s1 = client_count (srv r)"
    by (simp_all add: process_frame_new[OF none] add_client_full[OF full0])
  have s1: "sent ?s1 = sent (srv r)" by simp
  from wf c1 have wf1: "wf_state ?s1" by (simp add: wf_state_def)
  have all: "\<forall>c\<in>set (clients (srv r)). relay_target (Some a) c"
    using full new
    by (auto simp: all_active_iff[OF wf] registered_iff[OF wf] relay_target_def client_matches_def)
  then have flt: "filter (relay_target (Some a)) (clients (srv r)) = clients (srv r)"
    by simp
  show "clients (srv (run_receive w t d a r)) = clients (srv r)"
    by (simp add: run_receive_long[OF long] c1)
  show "client_count (srv (run_receive w t d a r)) = client_count (srv r)"
    by (simp add: run_receive_long[OF long] n1)
  show "sent (srv (run_receive w t d a r)) = sent (srv r) @
           map (\<lambda>c. (addr c, relay_buffer (frame (run_receive w t d a r)))) (clients (srv r))"
    by (simp add: run_receive_long[OF long] relay_frame_sent[OF wf1] c1 s1 flt)
qed

subsection \<open>Parsing a datagram and building the relayed bytes\<close>

lemma mask_FF: "(0xFF :: u32) = mask 8"
  by (simp add: mask_eq_exp_minus_1)

lemma be24_bytes:
  "ucast (drop_bit 16 (be24 a b c) AND 0xFF) = a"
  "ucast (drop_bit 8 (be24 a b c) AND 0xFF) = b"
  "ucast (be24 a b c AND 0xFF) = c"
  unfolding be24_def mask_FF
  by (rule bit_word_eqI; auto simp: bit_simps dest: bit_imp_le_length)+

lemma recv_into_nth:
  "k < length d \<Longrightarrow> k < DMR_BUFFER_SIZE \<Longrightarrow> recv_into buf d ! k = d ! k"
  by (simp add: recv_into_def memcpy_at_def nth_append)

lemma parse_frame_header:
  "ftype (parse_frame buf n fr) = buf ! 0"
  "slot (parse_frame buf n fr) = buf ! 1"
  "src_id (parse_frame buf n fr) = be24 (buf ! 2) (buf ! 3) (buf ! 4)"
  "dst_id (parse_frame buf n fr) = be24 (buf ! 5) (buf ! 6) (buf ! 7)"
  by (simp_all add: parse_frame_def Let_def)

lemma parse_frame_payload_head:
  assumes "8 \<le> n" and "8 \<le> length buf"
  shows "payload (parse_frame buf n fr) ! 0 = buf ! 6"
    and "payload (parse_frame buf n fr) ! Suc 0 = buf ! 7"
    and "2 \<le> length (payload (parse_frame buf n fr))"
  using assms
  by (auto simp: parse_frame_def Let_def memcpy_at_def nth_append
      DMR_HEADER_SIZE_def DMR_PAYLOAD_SIZE_def)

lemma relay_buffer_nth:
  assumes "2 \<le> length (payload f)"
  shows "relay_buffer f ! 0 = ftype f"
    and "relay_buffer f ! Suc 0 = slot f"
    and "relay_buffer f ! 2 = ucast (drop_bit 16 (src_id f) AND 0xFF)"
    and "relay_buffer f ! 3 = ucast (drop_bit 8 (src_id f) AND 0xFF)"
    and "relay_buffer f ! 4 = ucast (src_id f AND 0xFF)"
    and "relay_buffer f ! 5 = ucast (drop_bit 16 (dst_id f) AND 0xFF)"
    and "relay_buffer f ! 6 = payload f ! 0"
    and "relay_buffer f ! 7 = payload f ! Suc 0"
  using assms
  by (simp_all add: relay_buffer_def memcpy_at_def frame_header_def nth_append
      DMR_HEADER_SIZE_def DMR_PAYLOAD_SIZE_def)

lemma header_roundtrip_from_8_bytes:
  assumes "8 \<le> length d" and "length buf = DMR_BUFFER_SIZE"
  shows "ftype (parse_frame (relay_buffer (parse_frame (recv_into buf d)
              (min (length d) DMR_BUFFER_SIZE) fr)) m fr') = d ! 0
    \<and> slot (parse_frame (relay_buffer (parse_frame (recv_into buf d)
              (min (length d) DMR_BUFFER_SIZE) fr)) m fr') = d ! 1
    \<and> src_id (parse_frame (relay_buffer (parse_frame (recv_into buf d)
              (min (length d) DMR_BUFFER_SIZE) fr)) m fr') = be24 (d ! 2) (d ! 3) (d ! 4)
    \<and> dst_id (parse_frame (relay_buffer (parse_frame (recv_into buf d)
              (min (length d) DMR_BUFFER_SIZE) fr)) m fr') = be24 (d ! 5) (d ! 6) (d ! 7)
    \<and> ftype (parse_frame (recv_into buf d) (min (length d) DMR_BUFFER_SIZE) fr) = d ! 0
    \<and> slot (parse_frame (recv_into buf d) (min (length d) DMR_BUFFER_SIZE) fr) = d ! 1
    \<and> src_id (parse_frame (recv_into buf d) (min (length d) DMR_BUFFER_SIZE) fr)
         = be24 (d ! 2) (d ! 3) (d ! 4)
    \<and> dst_id (parse_frame (recv_into buf d) (min (length d) DMR_BUFFER_SIZE) fr)
         = be24 (d ! 5) (d ! 6) (d ! 7)"
proof -
  let ?buf = "recv_into buf d"
  let ?n = "min (length d) DMR_BUFFER_SIZE"
  let ?f = "parse_frame ?buf ?n fr"
  from assms have n: "8 \<le> ?n" by (simp add: DMR_BUFFER_SIZE_def)
  from assms have len: "8 \<le> length ?buf"
    by (simp add: recv_into_def memcpy_at_def DMR_BUFFER_SIZE_def)
  have b: "?buf ! k = d ! k" if "k < 8" for k
    using that assms(1) by (intro recv_into_nth) (simp_all add: DMR_BUFFER_SIZE_def)
  note p = parse_frame_payload_head[OF n len, of fr]
  note r = relay_buffer_nth[OF p(3)]
  show ?thesis
    by (simp add: parse_frame_header r p be24_bytes b)
qed

section \<open>The concrete run, evaluated\<close>

lemma ex_state_AB_clients:
  "clients ex_state_AB ! 0 = \<lparr>addr = ex_A, last_seen = 0, dmr_id = 100, active = True, callsign = []\<rparr>"
  "clients ex_state_AB ! Suc 0 = \<lparr>addr = ex_B, last_seen = 400, dmr_id = 200, active = True, callsign = []\<rparr>"
  "length (clients ex_state_AB) = 100"
  "server_config ex_state_AB = ex_config"
  by code_simp+



lemma ex_ops_count: "count_active (clients (run_ops ex_ops (dmr_server_init ex_config))) = 1"
  by code_simp

text \<open>
  \<^verbatim>\<open>dmr_add_client\<close> does not look the endpoint up itself: called twice for one endpoint,
  without the lookup of \<^verbatim>\<open>dmr_process_frame\<close>, it fills two slots.
\<close>

lemma add_client_twice_two_sessions:
  "\<not> unique_endpoints (clients (run_ops [Add 0 ex_A 100 None, Add 5 ex_A 100 None]
        (dmr_server_init ex_config)))"
  by code_simp

lemma ex_state_A_clients:
  "clients ex_state_A = (replicate 100 zero_client)
      [0 := \<lparr>addr = ex_A, last_seen = 0, dmr_id = 100, active = True, callsign = []\<rparr>]"
  by code_simp

lemma ex_state_A_ids:
  "\<forall>j<DMR_MAX_CLIENTS. client_matches ex_A (clients ex_state_A ! j)
      \<longrightarrow> dmr_id (clients ex_state_A ! j) \<noteq> 0"
  by (simp add: ex_state_A_clients DMR_MAX_CLIENTS_def nth_list_update client_matches_def
      zero_client_def)

lemma ex_state_A0_facts:
  "wf_state ex_state_A0"
  "db_lookups ex_state_A0 = []"
  "db_lookups (dmr_process_frame ex_world 10 ex_frame_A ex_A ex_state_A0) \<noteq> db_lookups ex_state_A0"
  "src_id ex_frame_A = 100"
  by code_simp+


lemma ex_state_A_facts:
  "wf_state ex_state_A"
  "first_slot (client_matches ex_A) (clients ex_state_A) = Some 0"
  "db_enabled (server_config ex_state_A)"
  "db_events ex_state_A = [(''connect'', clients ex_state_A ! 0)]"
  "length (clients ex_state_A) = 100"
  by code_simp+

lemma ex_hundred_senders:
  "map sender ex_hundred = map (\<lambda>i. (of_nat i, 5000)) [0..<100]"
  by (simp add: ex_hundred_def sender_def endpoint_def)

lemma ex_hundred_distinct: "distinct (map sender ex_hundred)"
proof -
  have "inj_on (\<lambda>i. (of_nat i :: u32, 5000 :: u16)) (set [0..<100])"
  proof (rule inj_onI)
    fix i j :: nat
    assume "i \<in> set [0..<100]" "j \<in> set [0..<100]"
      and "(of_nat i :: u32, 5000 :: u16) = (of_nat j, 5000)"
    then have "unat (of_nat i :: u32) = unat (of_nat j :: u32)" "i < 100" "j < 100" by simp_all
    then show "i = j" by (simp add: unat_of_nat)
  qed
  then show ?thesis
    unfolding ex_hundred_senders by (simp add: distinct_map)
qed

lemma ex_C_new: "endpoint ex_C \<notin> set (map sender ex_hundred)"
proof
  assume "endpoint ex_C \<in> set (map sender ex_hundred)"
  then obtain i where "i < 100" "(of_nat i :: u32) = 0x0A000003"
    unfolding ex_hundred_senders by (auto simp: endpoint_def ex_C_def)
  then have "unat (of_nat i :: u32) = unat (0x0A000003 :: u32)" by simp
  with \<open>i < 100\<close> show False by (simp add: unat_of_nat)
qed

lemma ex_hundred_length: "length ex_hundred = DMR_MAX_CLIENTS"
  by (simp add: ex_hundred_def DMR_MAX_CLIENTS_def)

lemma ex_full_facts:
  "wf_state (srv ex_full)"
  "first_slot (\<lambda>c. \<not> active c) (clients (srv ex_full)) = None"
  "\<not> registered ex_C (srv ex_full)"
  "sent (srv ex_full) = []"
proof -
  have l: "length ex_hundred \<le> DMR_MAX_CLIENTS" by (simp add: ex_hundred_length)
  note inv = register_all_inv[OF ex_hundred_distinct l, of ex_world ex_config]
  from inv show wf: "wf_state (srv ex_full)" by (simp add: ex_full_def counter_inv_def)
  from inv show "first_slot (\<lambda>c. \<not> active c) (clients (srv ex_full)) = None"
    unfolding full_iff[OF wf] by (simp add: ex_full_def ex_hundred_length)
  from inv ex_C_new show "\<not> registered ex_C (srv ex_full)"
    unfolding registered_endpoints_iff[OF wf] by (simp add: ex_full_def)
  have "sent (register_all w xs s) = sent s" for w xs s
    unfolding register_all_def by (induction xs arbitrary: s) (simp_all add: split_def)
  then show "sent (srv ex_full) = []" by (simp add: ex_full_def dmr_server_init_def)
qed

lemma ex_datagram_long: "DMR_HEADER_SIZE \<le> length ex_datagram"
  by (simp add: ex_datagram_def DMR_HEADER_SIZE_def)

section \<open>Eviction of idle sessions\<close>

text \<open>
  Claim C5. For every registry state, every time \<open>now\<close> and every timeout, the cleanup pass
  \<^verbatim>\<open>dmr_cleanup_clients\<close> removes exactly the sessions with \<open>now - last_seen > timeout\<close>:
  each such session is marked inactive, and every other entry, in particular every session
  with \<open>now - last_seen \<le> timeout\<close>, is left as it was and stays active. The times and
  the timeout are the signed values of the machine integers, and the difference
  \<open>now - last_seen\<close> is one that \<^verbatim>\<open>time_t\<close> can hold (the subtraction does not overflow).
\<close>

theorem cleanup_removes_exactly_idle:
  assumes "wf_state s" and "i < DMR_MAX_CLIENTS"
    and "- (2 ^ 63) \<le> sint now - sint (last_seen (clients s ! i))"
    and "sint now - sint (last_seen (clients s ! i)) < 2 ^ 63"
  shows "wf_state (dmr_cleanup_clients now s)
    \<and> clients (dmr_cleanup_clients now s) ! i =
        (if active (clients s ! i)
            \<and> sint now - sint (last_seen (clients s ! i)) > sint (timeout (server_config s))
         then (clients s ! i)\<lparr>active := False\<rparr> else clients s ! i)
    \<and> (active (clients (dmr_cleanup_clients now s) ! i) \<longleftrightarrow>
          active (clients s ! i)
          \<and> sint now - sint (last_seen (clients s ! i)) \<le> sint (timeout (server_config s)))"
proof -
  from assms have i: "i < length (clients s)" by (simp add: wf_state_def)
  have d: "sint (now - last_seen (clients s ! i)) = sint now - sint (last_seen (clients s ! i))"
    by (rule time_diff_exact[OF assms(3,4)])
  show ?thesis
    using assms(1) i d
    by (auto simp: dmr_cleanup_clients_eq wf_state_def expire_def expired_def)
qed

theorem cleanup_removes_exactly_idle_witness:
  "wf_state ex_state_AB \<and> (0::nat) < DMR_MAX_CLIENTS \<and> (1::nat) < DMR_MAX_CLIENTS
   \<and> - (2 ^ 63) \<le> sint (401 :: time_t) - sint (last_seen (clients ex_state_AB ! 0))
   \<and> sint (401 :: time_t) - sint (last_seen (clients ex_state_AB ! 0)) < 2 ^ 63
   \<and> - (2 ^ 63) \<le> sint (401 :: time_t) - sint (last_seen (clients ex_state_AB ! 1))
   \<and> sint (401 :: time_t) - sint (last_seen (clients ex_state_AB ! 1)) < 2 ^ 63
   \<and> \<not> active (clients (dmr_cleanup_clients 401 ex_state_AB) ! 0)
   \<and> active (clients (dmr_cleanup_clients 401 ex_state_AB) ! 1)"
proof -
  have wf: "wf_state ex_state_AB"
    by (simp add: wf_state_def ex_state_AB_clients DMR_MAX_CLIENTS_def)
  have i0: "(0::nat) < DMR_MAX_CLIENTS" and i1: "(1::nat) < DMR_MAX_CLIENTS"
    by (simp_all add: DMR_MAX_CLIENTS_def)
  have a0: "- (2 ^ 63) \<le> sint (401 :: time_t) - sint (last_seen (clients ex_state_AB ! 0))"
    and b0: "sint (401 :: time_t) - sint (last_seen (clients ex_state_AB ! 0)) < 2 ^ 63"
    and a1: "- (2 ^ 63) \<le> sint (401 :: time_t) - sint (last_seen (clients ex_state_AB ! 1))"
    and b1: "sint (401 :: time_t) - sint (last_seen (clients ex_state_AB ! 1)) < 2 ^ 63"
    by (simp_all add: ex_state_AB_clients)
  show ?thesis
    using wf i0 i1 a0 b0 a1 b1
      cleanup_removes_exactly_idle [OF wf i0 a0 b0]
      cleanup_removes_exactly_idle [OF wf i1 a1 b1]
    by (simp add: ex_state_AB_clients ex_config_def)
qed

section \<open>Fan-out of a relayed frame\<close>




section \<open>One session per endpoint\<close>

text \<open>
  Claim C7. In every state reached from the initialised registry by processing frames,
  registering (\<^verbatim>\<open>dmr_add_client\<close>, called as its caller does, for an endpoint that the
  lookup has not found), removing and cleaning up, no two active sessions have the same
  endpoint (IP address and UDP port).
\<close>

theorem one_session_per_endpoint:
  assumes "reachable config s"
  shows "unique_endpoints (clients s)
    \<and> (\<forall>i<DMR_MAX_CLIENTS. \<forall>j<DMR_MAX_CLIENTS.
          active (clients s ! i) \<and> active (clients s ! j)
          \<and> same_endpoint (addr (clients s ! i)) (addr (clients s ! j)) \<longrightarrow> i = j)"
proof -
  from registry_inv_reachable[OF assms]
  have wf: "wf_state s" and u: "unique_endpoints (clients s)"
    by (simp_all add: registry_inv_def)
  from u[unfolded unique_endpoints_nth] wf show ?thesis
    using u by (simp add: wf_state_def same_endpoint_iff)
qed

theorem one_session_per_endpoint_witness:
  "reachable ex_config ex_state_AB \<and> unique_endpoints (clients ex_state_AB)
   \<and> active (clients ex_state_AB ! 0) \<and> active (clients ex_state_AB ! 1)
   \<and> \<not> same_endpoint (addr (clients ex_state_AB ! 0)) (addr (clients ex_state_AB ! 1))"
proof -
  have r: "reachable ex_config ex_state_AB"
    unfolding ex_state_AB_def ex_state_A_def by (intro reachable.frame reachable.init)
  have "(0::nat) < DMR_MAX_CLIENTS" "(1::nat) < DMR_MAX_CLIENTS"
    by (simp_all add: DMR_MAX_CLIENTS_def)
  with one_session_per_endpoint [OF r] r show ?thesis
    by (auto simp: ex_state_AB_clients same_endpoint_def ex_A_def ex_B_def)
qed

section \<open>The session counter\<close>

text \<open>
  Claim C10. After every sequence of calls of \<^verbatim>\<open>dmr_add_client\<close>, \<^verbatim>\<open>dmr_remove_client\<close>,
  \<^verbatim>\<open>dmr_cleanup_clients\<close> (and \<^verbatim>\<open>dmr_process_frame\<close>), with any arguments, from the
  initialised registry, \<^verbatim>\<open>client_count\<close> is the number of entries of the client array whose
  active flag is set, and so lies between 0 and 100.
\<close>

theorem client_count_is_active_count:
  "client_count (run_ops ops (dmr_server_init config))
     = int (count_active (clients (run_ops ops (dmr_server_init config))))
   \<and> 0 \<le> client_count (run_ops ops (dmr_server_init config))
   \<and> client_count (run_ops ops (dmr_server_init config)) \<le> 100"
proof -
  have inv: "counter_inv (run_ops ops (dmr_server_init config))"
    by (rule counter_inv_run_ops[OF counter_inv_init])
  from counter_inv_bounds[OF inv] inv show ?thesis
    by (simp add: counter_inv_def DMR_MAX_CLIENTS_def)
qed

theorem client_count_is_active_count_witness:
  "client_count (run_ops ex_ops (dmr_server_init ex_config)) = 1"
  using client_count_is_active_count [of ex_ops ex_config] by (simp add: ex_ops_count)

section \<open>Identifier of a session\<close>

text \<open>
  Claim C6. Processing a frame never changes the identifier of an active session whose
  identifier is non-zero, whatever the frame's source identifier and endpoint (first seen
  wins). \<^verbatim>\<open>dmr_db_get_callsign\<close> is called during \<^verbatim>\<open>dmr_process_frame\<close> only when the session
  of the frame's endpoint has identifier zero and the frame's source identifier is not zero,
  which is when the identifier is assigned; a frame from an endpoint whose session has a
  non-zero identifier causes no lookup.
\<close>

theorem identifier_first_seen_wins:
  assumes "wf_state s"
  shows "(\<forall>i<DMR_MAX_CLIENTS. active (clients s ! i) \<and> dmr_id (clients s ! i) \<noteq> 0 \<longrightarrow>
            active (clients (dmr_process_frame w now fr a s) ! i)
            \<and> dmr_id (clients (dmr_process_frame w now fr a s) ! i) = dmr_id (clients s ! i))
    \<and> (db_lookups (dmr_process_frame w now fr a s) \<noteq> db_lookups s \<longrightarrow>
         (\<exists>j<DMR_MAX_CLIENTS. client_matches a (clients s ! j)
             \<and> dmr_id (clients s ! j) = 0 \<and> src_id fr \<noteq> 0
             \<and> dmr_id (clients (dmr_process_frame w now fr a s) ! j) = src_id fr
             \<and> db_lookups (dmr_process_frame w now fr a s) = db_lookups s @ [src_id fr]))
    \<and> ((\<forall>j<DMR_MAX_CLIENTS. client_matches a (clients s ! j) \<longrightarrow> dmr_id (clients s ! j) \<noteq> 0)
          \<longrightarrow> db_lookups (dmr_process_frame w now fr a s) = db_lookups s)"
proof (cases "first_slot (client_matches a) (clients s)")
  case None
  note new = process_frame_new[OF None]
  show ?thesis
  proof (cases "first_slot (\<lambda>c. \<not> active c) (clients s)")
    case None
    then show ?thesis by (simp add: new add_client_full)
  next
    case (Some k)
    from first_slot_Some[OF Some] assms have k: "k < length (clients s)" "\<not> active (clients s ! k)"
      by (simp_all add: wf_state_def)
    have "clients (dmr_process_frame w now fr a s) ! i = clients s ! i"
      if "active (clients s ! i)" for i
      using that k by (auto simp: new add_client_free[OF Some] nth_list_update)
    then show ?thesis by (simp add: new)
  qed
next
  case (Some j)
  note found = process_frame_found[OF Some assms]
  from first_slot_Some[OF Some] assms
  have j: "j < length (clients s)" "j < DMR_MAX_CLIENTS" "client_matches a (clients s ! j)"
    by (simp_all add: wf_state_def)
  have keep: "active (clients (dmr_process_frame w now fr a s) ! i)
        \<and> dmr_id (clients (dmr_process_frame w now fr a s) ! i) = dmr_id (clients s ! i)"
    if "active (clients s ! i)" "dmr_id (clients s ! i) \<noteq> 0" for i
    using that j by (cases "i = j") (simp_all add: found touched_dmr_id)
  have look: "\<exists>j<DMR_MAX_CLIENTS. client_matches a (clients s ! j)
             \<and> dmr_id (clients s ! j) = 0 \<and> src_id fr \<noteq> 0
             \<and> dmr_id (clients (dmr_process_frame w now fr a s) ! j) = src_id fr
             \<and> db_lookups (dmr_process_frame w now fr a s) = db_lookups s @ [src_id fr]"
    if "db_lookups (dmr_process_frame w now fr a s) \<noteq> db_lookups s"
  proof -
    from that have c: "dmr_id (clients s ! j) = 0" "src_id fr \<noteq> 0" "db_enabled (server_config s)"
      by (auto simp: found split: if_splits)
    then have "dmr_id (clients (dmr_process_frame w now fr a s) ! j) = src_id fr"
      "db_lookups (dmr_process_frame w now fr a s) = db_lookups s @ [src_id fr]"
      using j by (simp_all add: found touched_dmr_id)
    with j c show ?thesis by blast
  qed
  have none: "db_lookups (dmr_process_frame w now fr a s) = db_lookups s"
    if "\<forall>j<DMR_MAX_CLIENTS. client_matches a (clients s ! j) \<longrightarrow> dmr_id (clients s ! j) \<noteq> 0"
    using that j by (simp add: found)
  from keep look none show ?thesis by blast
qed

theorem identifier_first_seen_wins_witness:
  "wf_state ex_state_A \<and> (0::nat) < DMR_MAX_CLIENTS \<and> active (clients ex_state_A ! 0)
   \<and> dmr_id (clients ex_state_A ! 0) = 100 \<and> src_id ex_frame_A2 = 555
   \<and> dmr_id (clients (dmr_process_frame ex_world 10 ex_frame_A2 ex_A ex_state_A) ! 0) = 100
   \<and> db_lookups (dmr_process_frame ex_world 10 ex_frame_A2 ex_A ex_state_A)
        = db_lookups ex_state_A
   \<and> wf_state ex_state_A0
   \<and> db_lookups (dmr_process_frame ex_world 10 ex_frame_A ex_A ex_state_A0) = [100]"
proof -
  have wf: "wf_state ex_state_A" by (rule ex_state_A_facts)
  have c: "active (clients ex_state_A ! 0)" "dmr_id (clients ex_state_A ! 0) = 100"
    by (simp_all add: ex_state_A_clients)
  have n: "(0::nat) < DMR_MAX_CLIENTS" by (simp add: DMR_MAX_CLIENTS_def)
  note t = identifier_first_seen_wins [OF wf, of ex_world 10 ex_frame_A2 ex_A]
  from t n c
  have 1: "dmr_id (clients (dmr_process_frame ex_world 10 ex_frame_A2 ex_A ex_state_A) ! 0) = 100"
    by simp
  from t ex_state_A_ids
  have 2: "db_lookups (dmr_process_frame ex_world 10 ex_frame_A2 ex_A ex_state_A)
      = db_lookups ex_state_A" by blast
  note u = identifier_first_seen_wins [OF ex_state_A0_facts(1), of ex_world 10 ex_frame_A ex_A]
  from u ex_state_A0_facts(3)
  have "db_lookups (dmr_process_frame ex_world 10 ex_frame_A ex_A ex_state_A0)
      = db_lookups ex_state_A0 @ [src_id ex_frame_A]" by blast
  then have 3: "db_lookups (dmr_process_frame ex_world 10 ex_frame_A ex_A ex_state_A0) = [100]"
    by (simp add: ex_state_A0_facts)
  from wf c n 1 2 3 ex_state_A0_facts(1) show ?thesis by (simp add: ex_frame_A2_def)
qed


section \<open>Short datagrams\<close>

text \<open>
  Claim C8. A datagram shorter than \<^verbatim>\<open>DMR_HEADER_SIZE\<close> (6 bytes) is counted and dropped: it
  is not parsed (the frame variable keeps its value), the client array, the session counter
  and the list of sent datagrams are unchanged, so no session is created, none has its
  \<^verbatim>\<open>last_seen\<close> updated and nothing is relayed. The whole loop iteration differs from one
  without the datagram only in the receive buffer and the two receive counters (the periodic
  cleanup at the end of the iteration runs as it would have).
\<close>

theorem short_datagram_dropped:
  assumes "length d < DMR_HEADER_SIZE"
  shows "srv (run_receive w t d a r) =
           (srv r)\<lparr>packets_received := packets_received (srv r) + 1,
                   bytes_received := bytes_received (srv r) + of_nat (length d)\<rparr>
    \<and> clients (srv (run_receive w t d a r)) = clients (srv r)
    \<and> client_count (srv (run_receive w t d a r)) = client_count (srv r)
    \<and> sent (srv (run_receive w t d a r)) = sent (srv r)
    \<and> frame (run_receive w t d a r) = frame r
    \<and> dmr_server_run_iter w t t_loop t_clean (Recv_Data d a) r =
        (run_periodic t_loop t_clean r)
          \<lparr>buffer := recv_into (buffer r) d,
           srv := (srv (run_periodic t_loop t_clean r))
                    \<lparr>packets_received := packets_received (srv r) + 1,
                     bytes_received := bytes_received (srv r) + of_nat (length d)\<rparr>\<rparr>"
proof -
  from assms have short: "\<not> DMR_HEADER_SIZE \<le> min (length d) DMR_BUFFER_SIZE"
    and len: "min (length d) DMR_BUFFER_SIZE = length d"
    by (simp_all add: DMR_HEADER_SIZE_def DMR_BUFFER_SIZE_def)
  have rx: "run_receive w t d a r =
      r\<lparr>buffer := recv_into (buffer r) d,
        srv := (srv r)\<lparr>packets_received := packets_received (srv r) + 1,
                       bytes_received := bytes_received (srv r) + of_nat (length d)\<rparr>\<rparr>"
    using short by (simp add: run_receive_def Let_def len)
  show ?thesis
    unfolding rx
    by (simp add: dmr_server_run_iter_def rx run_periodic_def dmr_cleanup_clients_def
        cleanup_fold_stats)
qed

theorem short_datagram_dropped_witness:
  "length [1, 1, 0, 0, 100 :: u8] < DMR_HEADER_SIZE
   \<and> clients (srv (run_receive ex_world 500 [1, 1, 0, 0, 100] ex_A ex_run)) = clients ex_state_AB
   \<and> sent (srv (run_receive ex_world 500 [1, 1, 0, 0, 100] ex_A ex_run)) = sent ex_state_AB"
proof -
  have short: "length [1, 1, 0, 0, 100 :: u8] < DMR_HEADER_SIZE"
    by (simp add: DMR_HEADER_SIZE_def)
  from short_datagram_dropped [OF short, of ex_world 500 ex_A ex_run] short show ?thesis
    by (simp add: ex_run_def)
qed

section \<open>Removing a session\<close>

text \<open>
  Claim C9, as stated, fails when database logging is off (the default): the session is
  removed and no event is recorded.
\<close>

theorem remove_without_event_counterexample:
  "registered ex_A ex_state_nodb
   \<and> fst (dmr_remove_client ex_A ex_state_nodb) = 0
   \<and> \<not> active (clients (snd (dmr_remove_client ex_A ex_state_nodb)) ! 0)
   \<and> db_events (snd (dmr_remove_client ex_A ex_state_nodb)) = db_events ex_state_nodb"
  by code_simp

text \<open>
  Claim C9, amended. \<^verbatim>\<open>dmr_remove_client\<close> returns 0 exactly when the endpoint is registered.
  Then the first active session with this endpoint is marked inactive, the counter goes down
  by one, and, when database logging is enabled, a "disconnect" event for that session is
  recorded; with logging disabled no event is recorded. When the endpoint is unknown the
  result is -1 and the state is unchanged.
\<close>

theorem remove_client_result:
  assumes "wf_state s"
  shows "(fst (dmr_remove_client a s) = 0 \<longleftrightarrow> registered a s)
    \<and> (\<not> registered a s \<longrightarrow> dmr_remove_client a s = (-1, s))
    \<and> (\<forall>i. first_slot (client_matches a) (clients s) = Some i \<longrightarrow>
          clients (snd (dmr_remove_client a s))
            = (clients s)[i := (clients s ! i)\<lparr>active := False\<rparr>]
          \<and> \<not> active (clients (snd (dmr_remove_client a s)) ! i)
          \<and> client_count (snd (dmr_remove_client a s)) = client_count s - 1
          \<and> (db_enabled (server_config s) \<longrightarrow>
               take (Suc (length (db_events s))) (db_events (snd (dmr_remove_client a s)))
                 = db_events s @ [(''disconnect'', clients s ! i)])
          \<and> (\<not> db_enabled (server_config s) \<longrightarrow>
               db_events (snd (dmr_remove_client a s)) = db_events s))"
proof (cases "first_slot (client_matches a) (clients s)")
  case None
  then show ?thesis by (simp add: registered_def remove_client_unknown)
next
  case (Some i)
  from first_slot_Some[OF Some] assms have i: "i < length (clients s)"
    by (simp add: wf_state_def)
  show ?thesis
    using Some i by (simp add: registered_def remove_client_known[OF Some])
qed

theorem remove_client_result_witness:
  "wf_state ex_state_A \<and> registered ex_A ex_state_A
   \<and> fst (dmr_remove_client ex_A ex_state_A) = 0
   \<and> \<not> active (clients (snd (dmr_remove_client ex_A ex_state_A)) ! 0)
   \<and> take 2 (db_events (snd (dmr_remove_client ex_A ex_state_A)))
        = [(''connect'', clients ex_state_A ! 0), (''disconnect'', clients ex_state_A ! 0)]"
  using remove_client_result [of ex_state_A ex_A]
  by (simp add: ex_state_A_facts registered_def numeral_2_eq_2)

section \<open>Capacity\<close>

text \<open>
  Claim C2. After the frames of N \<open>\<le>\<close> 100 senders with pairwise distinct endpoints have been
  processed from the initialised registry, the session count is N (both \<^verbatim>\<open>client_count\<close> and
  the number of active entries). When N = 100, registering a further endpoint fails:
  \<^verbatim>\<open>dmr_add_client\<close> returns -1 and leaves the state as it is, and \<^verbatim>\<open>dmr_process_frame\<close>
  leaves the client array and the count unchanged; no session is evicted.
\<close>

theorem registration_up_to_capacity:
  assumes "distinct (map sender xs)" and "length xs \<le> DMR_MAX_CLIENTS"
  shows "client_count (register_all w xs (dmr_server_init config)) = int (length xs)
    \<and> count_active (clients (register_all w xs (dmr_server_init config))) = length xs
    \<and> (length xs = DMR_MAX_CLIENTS \<and> endpoint a \<notin> set (map sender xs) \<longrightarrow>
         dmr_add_client now a ident cs (register_all w xs (dmr_server_init config))
           = (-1, register_all w xs (dmr_server_init config))
         \<and> clients (dmr_process_frame w' now fr a (register_all w xs (dmr_server_init config)))
             = clients (register_all w xs (dmr_server_init config))
         \<and> client_count (dmr_process_frame w' now fr a
               (register_all w xs (dmr_server_init config))) = int (length xs))"
proof -
  let ?s = "register_all w xs (dmr_server_init config)"
  from register_all_inv[OF assms, of w config]
  have inv: "counter_inv ?s" and n: "count_active (clients ?s) = length xs"
    and eps: "registered_endpoints (clients ?s) = set (map sender xs)" by simp_all
  from inv have wf: "wf_state ?s" and cnt: "client_count ?s = int (length xs)"
    using n by (simp_all add: counter_inv_def)
  have full: "dmr_add_client now a ident cs ?s = (-1, ?s)
      \<and> clients (dmr_process_frame w' now fr a ?s) = clients ?s
      \<and> client_count (dmr_process_frame w' now fr a ?s) = int (length xs)"
    if "length xs = DMR_MAX_CLIENTS" "endpoint a \<notin> set (map sender xs)"
  proof -
    from that(1) n have none: "first_slot (\<lambda>c. \<not> active c) (clients ?s) = None"
      by (simp add: full_iff[OF wf])
    from that(2) eps have "\<not> registered a ?s" by (simp add: registered_endpoints_iff[OF wf])
    then have new: "first_slot (client_matches a) (clients ?s) = None"
      by (simp add: registered_def)
    show ?thesis
      using cnt by (simp add: add_client_full[OF none] process_frame_new[OF new])
  qed
  from cnt n full show ?thesis by blast
qed

theorem registration_up_to_capacity_witness:
  "distinct (map sender ex_hundred) \<and> length ex_hundred = DMR_MAX_CLIENTS
   \<and> endpoint ex_C \<notin> set (map sender ex_hundred)
   \<and> client_count (register_all ex_world ex_hundred (dmr_server_init ex_config)) = 100
   \<and> fst (dmr_add_client 500 ex_C 300 None
            (register_all ex_world ex_hundred (dmr_server_init ex_config))) = -1
   \<and> client_count (dmr_process_frame ex_world 500 ex_frame_B ex_C
            (register_all ex_world ex_hundred (dmr_server_init ex_config))) = 100"
proof -
  have l: "length ex_hundred \<le> DMR_MAX_CLIENTS" by (simp add: ex_hundred_length)
  note t = registration_up_to_capacity [OF ex_hundred_distinct l,
      of ex_world ex_config ex_C 500 300 None ex_world ex_frame_B]
  from t have 1: "client_count (register_all ex_world ex_hundred (dmr_server_init ex_config)) = 100"
    by (simp add: ex_hundred_length DMR_MAX_CLIENTS_def)
  from t ex_hundred_length ex_C_new
  have 2: "dmr_add_client 500 ex_C 300 None
       (register_all ex_world ex_hundred (dmr_server_init ex_config))
        = (-1, register_all ex_world ex_hundred (dmr_server_init ex_config))"
    and 3: "client_count (dmr_process_frame ex_world 500 ex_frame_B ex_C
            (register_all ex_world ex_hundred (dmr_server_init ex_config)))
        = int (length ex_hundred)"
    by blast+
  from 3 have 4: "client_count (dmr_process_frame ex_world 500 ex_frame_B ex_C
            (register_all ex_world ex_hundred (dmr_server_init ex_config))) = 100"
    by (simp add: ex_hundred_length DMR_MAX_CLIENTS_def)
  from ex_hundred_distinct ex_hundred_length ex_C_new 1 2 4 show ?thesis by simp
qed

section \<open>A frame from a new endpoint when the registry is full\<close>

text \<open>
  Claim C4, as stated, fails: with all 100 slots taken, a frame from an unseen endpoint C is
  not registered, and it is relayed to all 100 sessions.
\<close>

theorem full_registry_not_relayed_counterexample:
  "\<not> registered ex_C (srv ex_full)
   \<and> fst (dmr_add_client 500 ex_C 200 None (srv ex_full)) = -1
   \<and> length (sent (srv (run_receive ex_world 500 ex_datagram ex_C ex_full)))
       = length (sent (srv ex_full)) + 100"
  using full_registry_receive(3)[OF ex_full_facts(1,2,3) ex_datagram_long,
      where w = ex_world and t = 500]
    ex_full_facts(1)
  by (simp add: ex_full_facts add_client_full wf_state_def DMR_MAX_CLIENTS_def)

text \<open>
  Claim C4, amended. When a frame of at least \<^verbatim>\<open>DMR_HEADER_SIZE\<close> bytes arrives from an
  endpoint that is not registered and no slot is free, the insertion is rejected
  (\<^verbatim>\<open>dmr_add_client\<close> returns -1 and changes nothing), the client array and the session count
  are unchanged, and the frame is still relayed, to every one of the
  \<^verbatim>\<open>DMR_MAX_CLIENTS\<close> active sessions.
\<close>

theorem full_registry_frame_is_relayed:
  assumes "wf_state (srv r)"
    and "first_slot (\<lambda>c. \<not> active c) (clients (srv r)) = None"
    and "\<not> registered a (srv r)"
    and "DMR_HEADER_SIZE \<le> length d"
  shows "dmr_add_client t a ident cs (srv r) = (-1, srv r)
    \<and> clients (srv (run_receive w t d a r)) = clients (srv r)
    \<and> client_count (srv (run_receive w t d a r)) = client_count (srv r)
    \<and> sent (srv (run_receive w t d a r)) = sent (srv r) @
         map (\<lambda>c. (addr c, relay_buffer (frame (run_receive w t d a r)))) (clients (srv r))
    \<and> length (sent (srv (run_receive w t d a r)))
         = length (sent (srv r)) + DMR_MAX_CLIENTS"
proof -
  note f = full_registry_receive[OF assms, where w = w and t = t]
  from assms(1) have "length (clients (srv r)) = DMR_MAX_CLIENTS" by (simp add: wf_state_def)
  then show ?thesis
    by (simp add: f add_client_full[OF assms(2)])
qed

theorem full_registry_frame_is_relayed_witness:
  "wf_state (srv ex_full)
   \<and> first_slot (\<lambda>c. \<not> active c) (clients (srv ex_full)) = None
   \<and> \<not> registered ex_C (srv ex_full)
   \<and> DMR_HEADER_SIZE \<le> length ex_datagram
   \<and> clients (srv (run_receive ex_world 500 ex_datagram ex_C ex_full)) = clients (srv ex_full)
   \<and> length (sent (srv (run_receive ex_world 500 ex_datagram ex_C ex_full))) = DMR_MAX_CLIENTS"
proof -
  note t = full_registry_frame_is_relayed [OF ex_full_facts(1,2,3) ex_datagram_long,
      where t = 500 and ident = 200 and cs = None and w = ex_world]
  from t have 1: "clients (srv (run_receive ex_world 500 ex_datagram ex_C ex_full))
      = clients (srv ex_full)" by blast
  from t have "length (sent (srv (run_receive ex_world 500 ex_datagram ex_C ex_full)))
      = length (sent (srv ex_full)) + DMR_MAX_CLIENTS" by blast
  then have 2: "length (sent (srv (run_receive ex_world 500 ex_datagram ex_C ex_full)))
      = DMR_MAX_CLIENTS" by (simp add: ex_full_facts)
  from ex_full_facts(1,2,3) ex_datagram_long 1 2 show ?thesis by blast
qed

section \<open>Header fields of a relayed frame\<close>

text \<open>
  Claim C3: for every datagram of at least 6 bytes, parsing it and building the relayed bytes
  reproduces the header fields (type, slot, source and destination identifier). The code
  does so for datagrams of at least 8 bytes (lemma \<open>header_roundtrip_from_8_bytes\<close>). For
  a datagram of 6 bytes it does not: the destination identifier is parsed from
  \<^verbatim>\<open>buffer[5]\<close> to \<^verbatim>\<open>buffer[7]\<close>, of which the datagram wrote only the first, and the relayed
  bytes 6 and 7 are the first two payload bytes. In the run below, B's 6-byte datagram is
  parsed with destination 0x00FFFF and relayed to A with the destination bytes 00 00 00.
\<close>

theorem six_byte_header_not_reproduced:
  "length ex_short_B = 6
   \<and> dst_id (frame ex_short_run) = 0x00FFFF
   \<and> sent (srv ex_short_run) = [(ex_A, [1, 2, 0, 0, 200, 0] @ replicate 27 0)]
   \<and> dst_id (parse_frame (snd (hd (sent (srv ex_short_run)))) 33 (frame ex_short_run)) = 0"
  by code_simp

end
